theory Spec2Isabelle
  imports Complex_Main "HOL-Library.List_Lexorder" "HOL-Library.Product_Lexorder"
    "HOL-Library.Code_Target_Numeral" "HOL-Library.Multiset"
begin


section \<open>Data model (types.ts)\<close>

text \<open>
  A number field holds a finite JavaScript number, which is a rational; a decimal that
  is not a double (\<open>0.2\<close>, say) stands for the double nearest to it, the one the
  program computes with (\<open>rnd\<close> below). A string is a list of code units, and \<open>char\<close>
  covers the code units \<open>0\<close> to \<open>255\<close>: the strings of the model are those of ASCII and
  Latin-1 characters.
\<close>

datatype Pattern = Dots | Diagonal | Circles | Solid | NoPattern

record SoilLayer =
  layer_id :: string
  depthFrom :: rat
  depthTo :: rat
  description :: string
  uscs :: string
  finePercent :: "string option"
  plasticity :: "string option"
  swelling :: "string option"
  colorText :: "string option"
  color :: "string option"
  pattern :: "Pattern option"

record SPTRecord =
  spt_id :: string
  depth :: rat
  spt_value :: rat
  spt_notes :: "string option"

record HeaderData =
  projectName :: string
  boreholeName :: string
  date :: string
  elevation :: string
  coordinates :: string
  client :: string
  waterTable :: string

record ExtractedData =
  internalId :: string
  header :: HeaderData
  layers :: "SoilLayer list"
  spt :: "SPTRecord list"

datatype error = TypeError | RangeError

section \<open>Reconciliation: \<open>mergeBoreholes\<close>\<close>

subsection \<open>String helpers of the platform\<close>

text \<open>
  The white space and line terminators of JavaScript among these code units: tab, line
  feed, vertical tab, form feed, carriage return, space and the no-break space
  \<open>U+00A0\<close>.
\<close>

definition isSpace :: "char \<Rightarrow> bool" where
  "isSpace c =
     (c \<in> set [CHR 0x09, CHR 0x0A, CHR 0x0B, CHR 0x0C, CHR 0x0D, CHR '' '', CHR 0xA0])"

text \<open>\<open>String.prototype.trim\<close>: white space is removed at both ends.\<close>

definition trim :: "string \<Rightarrow> string" where
  "trim s = rev (dropWhile isSpace (rev (dropWhile isSpace s)))"

definition isDigit :: "char \<Rightarrow> bool" where
  "isDigit c = (48 \<le> (of_char c :: nat) \<and> (of_char c :: nat) \<le> 57)"

definition digitVal :: "char \<Rightarrow> nat" where
  "digitVal c = of_char c - 48"

text \<open>The value of a run of decimal digits, most significant digit first.\<close>

definition digitsValue :: "string \<Rightarrow> nat" where
  "digitsValue ds = foldl (\<lambda>n c. 10 * n + digitVal c) 0 ds"

subsection \<open>The comparison of borehole names\<close>

text \<open>
  \<open>a.localeCompare(b, undefined, {numeric: true, sensitivity: 'base'})\<close> is the
  collation of the platform in its default locale, at primary strength: it compares
  the sort keys of the two names, and the sort key of a name is the sequence of the
  primary weights of its collation elements. The weights are data of the platform and
  of its locale, not of this program, and are a parameter here: \<open>charPrimary\<close> gives
  the primary weights of a character that is not a decimal digit (none for a
  character the collation ignores, several for one it expands), and \<open>digitsPrimary\<close> the
  weights of a maximal run of decimal digits, which \<open>numeric: true\<close> makes one
  element. Sort keys are compared lexicographically.
\<close>

record collation =
  charPrimary :: "char \<Rightarrow> nat list"
  digitsPrimary :: "string \<Rightarrow> nat list"

function naturalKey :: "collation \<Rightarrow> string \<Rightarrow> nat list" where
  "naturalKey col [] = []"
| "naturalKey col (c # cs) =
     (if isDigit c
      then digitsPrimary col (c # takeWhile isDigit cs) @ naturalKey col (dropWhile isDigit cs)
      else charPrimary col c @ naturalKey col cs)"
  by pat_completeness auto
termination
  by (relation "measure (\<lambda>p. length (snd p))") (auto simp: length_dropWhile_le le_imp_less_Suc)


subsection \<open>Merging one fragment into an existing record\<close>

text \<open>
  \<open>Array.prototype.sort\<close> is stable, and so is \<open>sort_key\<close>: elements of equal key keep
  their order.

  The filter with the set \<open>seenDepths\<close>: an element is dropped when its key was seen
  before, and its key is recorded otherwise. The key of a layer is the string
  \<open>`${l.depthFrom}-${l.depthTo}`\<close>; two pairs of numbers give the same string exactly
  when they are the same pair, so the pair itself is the key here.
\<close>

fun filterSeen :: "('a \<Rightarrow> 'k) \<Rightarrow> 'k list \<Rightarrow> 'a list \<Rightarrow> 'a list" where
  "filterSeen key seen [] = []"
| "filterSeen key seen (x # xs) =
     (if key x \<in> set seen then filterSeen key seen xs
      else x # filterSeen key (key x # seen) xs)"

definition layerKey :: "SoilLayer \<Rightarrow> rat \<times> rat" where
  "layerKey l = (depthFrom l, depthTo l)"

definition mergeLayers :: "SoilLayer list \<Rightarrow> SoilLayer list \<Rightarrow> SoilLayer list" where
  "mergeLayers existing incoming =
     (if length incoming > 0
      then filterSeen layerKey [] (sort_key depthFrom (existing @ incoming))
      else existing)"

definition mergeSpt :: "SPTRecord list \<Rightarrow> SPTRecord list \<Rightarrow> SPTRecord list" where
  "mergeSpt existing incoming =
     (if length incoming > 0
      then filterSeen depth [] (sort_key depth (existing @ incoming))
      else existing)"

text \<open>The four assignments to \<open>existing.header\<close>; an empty string is the falsy one.\<close>

definition mergeHeader :: "HeaderData \<Rightarrow> HeaderData \<Rightarrow> HeaderData" where
  "mergeHeader eh ih =
     eh\<lparr> projectName := (if projectName eh = [] then projectName ih else projectName eh),
         elevation := (if elevation eh = [] \<or> elevation eh = ''0.00''
                       then elevation ih else elevation eh),
         coordinates := (if coordinates eh = [] then coordinates ih else coordinates eh),
         waterTable := (if waterTable eh = ''-'' \<or> waterTable eh = []
                        then waterTable ih else waterTable eh) \<rparr>"

definition mergeInto :: "ExtractedData \<Rightarrow> ExtractedData \<Rightarrow> ExtractedData" where
  "mergeInto existing item =
     existing\<lparr> layers := mergeLayers (layers existing) (layers item),
               spt := mergeSpt (spt existing) (spt item),
               header := mergeHeader (header existing) (header item) \<rparr>"

subsection \<open>The map \<open>mergedMap\<close> and the loop\<close>

text \<open>
  \<open>mergedMap\<close> is a plain object used as a dictionary: its own properties are kept in
  insertion order, and a read \<open>mergedMap[name]\<close> of a name that is not an own property
  finds the property of that name on \<open>Object.prototype\<close>, if there is one. Those
  inherited values are functions (or, for \<open>__proto__\<close>, the prototype object): they are
  truthy, so the loop takes its merge branch with such a value as \<open>existing\<close>, and the
  read of \<open>existing.header.projectName\<close> (or, before it, the spread of
  \<open>existing.layers\<close>) throws a TypeError.
\<close>

type_synonym mergedMap = "(string \<times> ExtractedData) list"

definition prototypeKeys :: "string list" where
  "prototypeKeys =
     [''constructor'', ''hasOwnProperty'', ''isPrototypeOf'', ''propertyIsEnumerable'',
      ''toLocaleString'', ''toString'', ''valueOf'', ''__proto__'',
      ''__defineGetter__'', ''__defineSetter__'', ''__lookupGetter__'', ''__lookupSetter__'']"

fun setProp :: "string \<Rightarrow> 'v \<Rightarrow> (string \<times> 'v) list \<Rightarrow> (string \<times> 'v) list" where
  "setProp k v [] = [(k, v)]"
| "setProp k v ((k', v') # m) = (if k' = k then (k, v) # m else (k', v') # setProp k v m)"

definition fragKey :: "ExtractedData \<Rightarrow> string" where
  "fragKey item = trim (boreholeName (header item))"

definition mergeItem :: "mergedMap \<Rightarrow> ExtractedData \<Rightarrow> error + mergedMap" where
  "mergeItem m item =
     (let name = fragKey item in
      if name = [] then Inr m
      else (case map_of m name of
              None \<Rightarrow> if name \<in> set prototypeKeys then Inl TypeError
                      else Inr (setProp name item m)
            | Some existing \<Rightarrow> Inr (setProp name (mergeInto existing item) m)))"

fun forEachMerge :: "ExtractedData list \<Rightarrow> mergedMap \<Rightarrow> error + mergedMap" where
  "forEachMerge [] m = Inr m"
| "forEachMerge (item # rest) m =
     (case mergeItem m item of Inl e \<Rightarrow> Inl e | Inr m' \<Rightarrow> forEachMerge rest m')"

text \<open>
  \<open>Object.values\<close> lists the properties whose name is an array index (a canonical
  decimal numeral below \<open>2^32 - 1\<close>) first, in ascending numeric order, and the other
  properties after them in insertion order.
\<close>

definition isArrayIndex :: "string \<Rightarrow> bool" where
  "isArrayIndex k =
     (k \<noteq> [] \<and> list_all isDigit k \<and> (k = ''0'' \<or> hd k \<noteq> CHR ''0'')
      \<and> digitsValue k < 4294967295)"

definition Object_values :: "(string \<times> 'v) list \<Rightarrow> 'v list" where
  "Object_values m =
     map snd (sort_key (\<lambda>p. digitsValue (fst p)) (filter (\<lambda>p. isArrayIndex (fst p)) m)
              @ filter (\<lambda>p. \<not> isArrayIndex (fst p)) m)"

definition nameKey :: "collation \<Rightarrow> ExtractedData \<Rightarrow> nat list" where
  "nameKey col a = naturalKey col (boreholeName (header a))"

definition mergeBoreholes :: "collation \<Rightarrow> ExtractedData list \<Rightarrow> error + ExtractedData list" where
  "mergeBoreholes col rawList =
     (case forEachMerge rawList [] of
        Inl e \<Rightarrow> Inl e
      | Inr mergedMap \<Rightarrow> Inr (sort_key (nameKey col) (Object_values mergedMap)))"


section \<open>JavaScript numbers\<close>

text \<open>
  The layout computes with IEEE 754 doubles. A \<open>number\<close> is a finite double, given by
  its rational value, one of the two infinities, or NaN. The two zeros are not told
  apart: nothing in the layout divides by a computed value or reads the sign of a zero.
\<close>

datatype number = NaN | NegInf | Fin rat | PosInf

subsection \<open>Rounding to the nearest double\<close>

text \<open>\<open>log2n n\<close> is the integer part of the binary logarithm of \<open>n \<ge> 1\<close>.\<close>

fun log2n :: "nat \<Rightarrow> nat" where
  "log2n n = (if n < 2 then 0 else Suc (log2n (n div 2)))"

definition pow2 :: "int \<Rightarrow> rat" where
  "pow2 e = (if 0 \<le> e then 2 ^ nat e else 1 / 2 ^ nat (- e))"

text \<open>The integer \<open>e\<close> with \<open>2^e \<le> x < 2^(e+1)\<close>, for \<open>x > 0\<close>.\<close>

definition floorLog2 :: "rat \<Rightarrow> int" where
  "floorLog2 x =
     (if 1 \<le> x then int (log2n (nat \<lfloor>x\<rfloor>))
      else (let k = int (log2n (nat \<lfloor>1 / x\<rfloor>))
            in if pow2 k = 1 / x then - k else - (k + 1)))"

text \<open>Rounding to the nearest integer, a tie going to the even one.\<close>

definition roundHalfEven :: "rat \<Rightarrow> int" where
  "roundHalfEven m =
     (let f = \<lfloor>m\<rfloor>; r = m - of_int f
      in if r < 1 / 2 then f
         else if 1 / 2 < r then f + 1
         else if even f then f else f + 1)"

text \<open>
  The double nearest to a rational, as every arithmetic operation and every reading
  of a decimal gives it: the significand has 53 bits, the least exponent is \<open>-1022\<close>
  (below it the doubles are the multiples of \<open>2^-1074\<close>), a tie goes to the even
  significand, and a result of magnitude \<open>2^1024\<close> or more is infinite.
\<close>

definition rnd :: "rat \<Rightarrow> number" where
  "rnd x =
     (if x = 0 then Fin 0
      else (let a = \<bar>x\<bar>;
                e = max (floorLog2 a) (- 1022);
                u = pow2 (e - 52);
                y = of_int (roundHalfEven (a / u)) * u
            in if pow2 1024 \<le> y then (if x < 0 then NegInf else PosInf)
               else Fin (if x < 0 then - y else y)))"

subsection \<open>Arithmetic and comparison\<close>

definition isNaN :: "number \<Rightarrow> bool" where
  "isNaN x = (x = NaN)"

fun nneg :: "number \<Rightarrow> number" where
  "nneg NaN = NaN"
| "nneg NegInf = PosInf"
| "nneg PosInf = NegInf"
| "nneg (Fin a) = Fin (- a)"

fun nadd :: "number \<Rightarrow> number \<Rightarrow> number" where
  "nadd (Fin a) (Fin b) = rnd (a + b)"
| "nadd NaN y = NaN"
| "nadd x NaN = NaN"
| "nadd PosInf NegInf = NaN"
| "nadd NegInf PosInf = NaN"
| "nadd PosInf y = PosInf"
| "nadd x PosInf = PosInf"
| "nadd NegInf y = NegInf"
| "nadd x NegInf = NegInf"

definition nsub :: "number \<Rightarrow> number \<Rightarrow> number" where
  "nsub x y = nadd x (nneg y)"

text \<open>The sign of a number that is not NaN.\<close>

fun nsign :: "number \<Rightarrow> int" where
  "nsign NaN = 0"
| "nsign NegInf = - 1"
| "nsign PosInf = 1"
| "nsign (Fin a) = (if a < 0 then - 1 else if a = 0 then 0 else 1)"

text \<open>
  The product: of two finite numbers the rounded product, and otherwise NaN when a
  factor is NaN or an infinity meets a zero, and the infinity of the product of the
  signs when not.
\<close>

definition nmul :: "number \<Rightarrow> number \<Rightarrow> number" where
  "nmul x y =
     (case (x, y) of
        (Fin a, Fin b) \<Rightarrow> rnd (a * b)
      | _ \<Rightarrow> if isNaN x \<or> isNaN y \<or> nsign x * nsign y = 0 then NaN
             else if 0 < nsign x * nsign y then PosInf else NegInf)"

text \<open>Division by a positive constant; the layout divides by 2 and by 50 only.\<close>

fun ndiv :: "number \<Rightarrow> rat \<Rightarrow> number" where
  "ndiv (Fin a) c = rnd (a / c)"
| "ndiv x c = x"

text \<open>\<open>x < y\<close>: false when either is NaN.\<close>

fun nless :: "number \<Rightarrow> number \<Rightarrow> bool" where
  "nless (Fin a) (Fin b) = (a < b)"
| "nless NaN y = False"
| "nless x NaN = False"
| "nless x NegInf = False"
| "nless PosInf y = False"
| "nless NegInf y = True"
| "nless x PosInf = True"

text \<open>\<open>Math.max\<close> and \<open>Math.min\<close> of two numbers, and of a list of arguments.\<close>

definition nmax :: "number \<Rightarrow> number \<Rightarrow> number" where
  "nmax x y = (if isNaN x \<or> isNaN y then NaN else if nless x y then y else x)"

definition nmin :: "number \<Rightarrow> number \<Rightarrow> number" where
  "nmin x y = (if isNaN x \<or> isNaN y then NaN else if nless y x then y else x)"

definition mathMax :: "number list \<Rightarrow> number" where
  "mathMax xs = fold nmax xs NegInf"

definition mathMin :: "number list \<Rightarrow> number" where
  "mathMin xs = fold nmin xs PosInf"

fun nceil :: "number \<Rightarrow> number" where
  "nceil (Fin a) = Fin (of_int \<lceil>a\<rceil>)"
| "nceil x = x"

fun nfloor :: "number \<Rightarrow> number" where
  "nfloor (Fin a) = Fin (of_int \<lfloor>a\<rfloor>)"
| "nfloor x = x"

text \<open>
  \<open>ToLength\<close>, which \<open>Array.from\<close> applies to the \<open>length\<close> it is given: NaN and the
  negative numbers give 0, the fraction is dropped, and the result is at most
  \<open>2^53 - 1\<close>.
\<close>

fun toLength :: "number \<Rightarrow> nat" where
  "toLength NaN = 0"
| "toLength NegInf = 0"
| "toLength PosInf = 9007199254740991"
| "toLength (Fin a) = (if a \<le> 0 then 0 else min (nat \<lfloor>a\<rfloor>) 9007199254740991)"

text \<open>
  The order in which a comparison function \<open>(a, b) => a - b\<close> puts numbers that are
  not NaN: the difference of two equal infinities is NaN, which the sort reads as 0.
\<close>

fun ordKey :: "number \<Rightarrow> nat \<times> rat" where
  "ordKey NegInf = (0, 0)"
| "ordKey (Fin a) = (1, a)"
| "ordKey PosInf = (2, 0)"
| "ordKey NaN = (3, 0)"

section \<open>Layout: \<open>SoilProfileChart\<close>\<close>

definition COLUMN_WIDTH :: number where "COLUMN_WIDTH = Fin 420"
definition COLUMN_GAP :: number where "COLUMN_GAP = Fin 50"
definition MARGIN_TOP :: number where "MARGIN_TOP = Fin 100"
definition MARGIN_BOTTOM :: number where "MARGIN_BOTTOM = Fin 220"
definition MARGIN_SIDES :: number where "MARGIN_SIDES = Fin 80"
definition PIXELS_PER_METER :: number where "PIXELS_PER_METER = Fin 70"

subsection \<open>Parsing the header elevation\<close>

text \<open>\<open>s.replace(/[^\d.-]/g, '')\<close> keeps the digits, the dots and the minus signs.\<close>

definition keepNumeric :: "string \<Rightarrow> string" where
  "keepNumeric s = filter (\<lambda>c. isDigit c \<or> c = CHR ''.'' \<or> c = CHR ''-'') s"

text \<open>
  \<open>parseFloat\<close> on a string of digits, dots and minus signs: it reads the longest
  prefix of the form \<open>-? digits (. digits)?\<close> with at least one digit and gives the
  double nearest to that decimal, and NaN when there is no such prefix. No white
  space, plus sign, exponent or \<open>Infinity\<close> can be left in the string after
  \<open>keepNumeric\<close>.
\<close>

definition parseFloat :: "string \<Rightarrow> number" where
  "parseFloat s =
     (let neg = (s \<noteq> [] \<and> hd s = CHR ''-'');
          r = (if neg then tl s else s);
          ip = takeWhile isDigit r;
          r' = dropWhile isDigit r;
          fp = (if r' \<noteq> [] \<and> hd r' = CHR ''.'' then takeWhile isDigit (tl r') else [])
      in if ip = [] \<and> fp = [] then NaN
         else rnd ((if neg then - 1 else 1)
                   * (of_nat (digitsValue ip) + of_nat (digitsValue fp) / 10 ^ length fp)))"

definition parseElevation :: "string \<Rightarrow> number" where
  "parseElevation s = (let v = parseFloat (keepNumeric s) in if isNaN v then Fin 0 else v)"

subsection \<open>Mode and plotting-surface elevations\<close>

definition elevations :: "ExtractedData list \<Rightarrow> number list" where
  "elevations data = map (\<lambda>d. parseElevation (elevation (header d))) data"

text \<open>\<open>(maxRawElev - minRawElev) > 50 || data.length < 2\<close>\<close>

definition isRelativeMode :: "ExtractedData list \<Rightarrow> bool" where
  "isRelativeMode data =
     (nless (Fin 50) (nsub (mathMax (elevations data)) (mathMin (elevations data)))
      \<or> length data < 2)"

definition plotElevations :: "ExtractedData list \<Rightarrow> number list" where
  "plotElevations data =
     map (\<lambda>e. if isRelativeMode data then Fin 0 else e) (elevations data)"

subsection \<open>Vertical extent\<close>

text \<open>\<open>Math.max(...bh.layers.map(l => l.depthTo), ...bh.spt.map(s => s.depth), 10)\<close>\<close>

definition maxD :: "ExtractedData \<Rightarrow> number" where
  "maxD bh =
     mathMax (map (\<lambda>l. rnd (depthTo l)) (layers bh) @ map (\<lambda>s. rnd (depth s)) (spt bh)
              @ [Fin 10])"

text \<open>
  The loop over the boreholes keeps a running maximum and minimum, started at
  \<open>-Infinity\<close> and \<open>Infinity\<close>.
\<close>

fun extentStep :: "number \<times> number \<Rightarrow> number \<times> ExtractedData \<Rightarrow> number \<times> number" where
  "extentStep (maxAbsElev, minAbsElev) (surf, bh) =
     ((if nless maxAbsElev surf then surf else maxAbsElev),
      (if nless (nsub surf (maxD bh)) minAbsElev then nsub surf (maxD bh) else minAbsElev))"

definition extents :: "ExtractedData list \<Rightarrow> number \<times> number" where
  "extents data = foldl extentStep (NegInf, PosInf) (zip (plotElevations data) data)"

text \<open>\<open>maxAbsElev = Math.ceil(maxAbsElev) + 1\<close> and \<open>minAbsElev = Math.floor(minAbsElev) - 1\<close>\<close>

definition topElevation :: "ExtractedData list \<Rightarrow> number" where
  "topElevation data = nadd (nceil (fst (extents data))) (Fin 1)"

definition bottomElevation :: "ExtractedData list \<Rightarrow> number" where
  "bottomElevation data = nsub (nfloor (snd (extents data))) (Fin 1)"

definition getY :: "number \<Rightarrow> number \<Rightarrow> number" where
  "getY maxAbsElev absElev = nadd MARGIN_TOP (nmul (nsub maxAbsElev absElev) PIXELS_PER_METER)"

subsection \<open>The elements drawn\<close>

datatype GridLabel = DepthLabel nat | ElevLabel number

record GridLine =
  grid_elev :: number
  grid_y :: number
  grid_label :: GridLabel

record LayerBox =
  box_layer :: SoilLayer
  box_x :: number
  yTop :: number
  yBot :: number
  box_h :: number
  uscs_y :: number
  params_x :: number
  desc_x :: number

record SptPoint =
  pt_record :: SPTRecord
  pt_x :: number
  pt_y :: number

record Column =
  col_borehole :: ExtractedData
  startX :: number
  surfElev :: number
  col_boxes :: "LayerBox list"
  spt_x :: number
  col_polyline :: "SptPoint list"
  col_circles :: "SptPoint list"

record LayoutModel =
  CANVAS_WIDTH :: number
  CANVAS_HEIGHT :: number
  CHART_HEIGHT :: number
  relativeMode :: bool
  topElev :: number
  bottomElev :: number
  grid :: "GridLine list"
  columns :: "Column list"
  titleProject :: string

text \<open>
  The grid: \<open>Array.from({ length: Math.ceil(elevRange) + 1 })\<close> makes an array of
  \<open>gridCount\<close> elements, and throws a RangeError when that length is above
  \<open>2^32 - 1\<close>; the line of index \<open>i\<close> is at elevation \<open>maxAbsElev - i\<close>.
\<close>

definition gridCount :: "ExtractedData list \<Rightarrow> nat" where
  "gridCount data =
     toLength (nadd (nceil (nsub (topElevation data) (bottomElevation data))) (Fin 1))"

definition gridLines :: "bool \<Rightarrow> number \<Rightarrow> nat \<Rightarrow> GridLine list" where
  "gridLines rel maxAbsElev n =
     map (\<lambda>i. \<lparr> grid_elev = nsub maxAbsElev (Fin (of_nat i)),
                grid_y = getY maxAbsElev (nsub maxAbsElev (Fin (of_nat i))),
                grid_label = (if rel then DepthLabel i
                              else ElevLabel (nsub maxAbsElev (Fin (of_nat i)))) \<rparr>)
         [0 ..< n]"

definition layerBox :: "number \<Rightarrow> number \<Rightarrow> number \<Rightarrow> SoilLayer \<Rightarrow> LayerBox" where
  "layerBox maxAbsElev sx surf l =
     (let yT = getY maxAbsElev (nsub surf (rnd (depthFrom l)));
          yB = getY maxAbsElev (nsub surf (rnd (depthTo l)));
          h = nsub yB yT;
          xL = nadd sx (Fin 30);
          xP = nadd xL (Fin 50);
          xD = nadd xP (Fin 100)
      in \<lparr> box_layer = l, box_x = xL, yTop = yT, yBot = yB, box_h = h,
           uscs_y = nadd yT (nmin (ndiv h 2) (Fin 15)), params_x = xP, desc_x = xD \<rparr>)"

definition sptPoint :: "number \<Rightarrow> number \<Rightarrow> number \<Rightarrow> SPTRecord \<Rightarrow> SptPoint" where
  "sptPoint maxAbsElev xS surf p =
     \<lparr> pt_record = p,
       pt_x = nadd xS (nmul (ndiv (nmin (rnd (spt_value p)) (Fin 50)) 50) (Fin 100)),
       pt_y = getY maxAbsElev (nsub surf (rnd (depth p))) \<rparr>"

text \<open>
  \<open>bh.spt.sort((a, b) => a.depth - b.depth)\<close> sorts the array of the borehole in place,
  stably, and returns it.
\<close>

definition sortSpt :: "SPTRecord list \<Rightarrow> SPTRecord list" where
  "sortSpt ps = sort_key (\<lambda>p. ordKey (rnd (depth p))) ps"

text \<open>
  One column. The circles are drawn from \<open>bh.spt\<close> after the sort, so they follow the
  sorted order too, and the borehole is returned with its sorted array beside the
  column.
\<close>

definition column :: "number \<Rightarrow> nat \<Rightarrow> number \<Rightarrow> ExtractedData \<Rightarrow> Column \<times> ExtractedData" where
  "column maxAbsElev idx surf bh =
     (let sx = nadd (nadd MARGIN_SIDES (Fin 50))
                    (nmul (Fin (of_nat idx)) (nadd COLUMN_WIDTH COLUMN_GAP));
          xS = nsub (nadd sx COLUMN_WIDTH) (Fin 100);
          bh' = bh\<lparr> spt := sortSpt (spt bh) \<rparr>
      in (\<lparr> col_borehole = bh', startX = sx, surfElev = surf,
             col_boxes = map (layerBox maxAbsElev sx surf) (layers bh),
             spt_x = xS,
             col_polyline = map (sptPoint maxAbsElev xS surf) (spt bh'),
             col_circles = map (sptPoint maxAbsElev xS surf) (spt bh') \<rparr>,
          bh'))"

text \<open>
  The component. The grid is built first and may throw the RangeError; the title
  block, built last, reads \<open>data[0].header.projectName\<close>, and with no borehole
  \<open>data[0]\<close> is undefined and the read throws a TypeError. The result is the layout and
  the boreholes as the call leaves them.
\<close>

definition SoilProfileChart :: "ExtractedData list \<Rightarrow> error + (LayoutModel \<times> ExtractedData list)" where
  "SoilProfileChart data =
     (let maxAbsElev = topElevation data;
          minAbsElev = bottomElevation data;
          elevRange = nsub maxAbsElev minAbsElev;
          chartHeight = nmul elevRange PIXELS_PER_METER;
          n = Fin (of_nat (length data));
          CONTENT_WIDTH = nadd (nadd (nmul MARGIN_SIDES (Fin 2)) (nmul n COLUMN_WIDTH))
                               (nmul (nsub n (Fin 1)) COLUMN_GAP);
          cols = map (\<lambda>(idx, surf, bh). column maxAbsElev idx surf bh)
                     (zip [0 ..< length data] (zip (plotElevations data) data))
      in if 4294967295 < gridCount data then Inl RangeError
         else (case data of
                 [] \<Rightarrow> Inl TypeError
               | d0 # _ \<Rightarrow>
                   Inr (\<lparr> CANVAS_WIDTH = nadd CONTENT_WIDTH (Fin 100),
                          CANVAS_HEIGHT = nadd (nadd chartHeight MARGIN_TOP) MARGIN_BOTTOM,
                          CHART_HEIGHT = chartHeight,
                          relativeMode = isRelativeMode data,
                          topElev = maxAbsElev,
                          bottomElev = minAbsElev,
                          grid = gridLines (isRelativeMode data) maxAbsElev (gridCount data),
                          columns = map fst cols,
                          titleProject = projectName (header d0) \<rparr>,
                        map snd cols)))"

section \<open>Notions used to state the properties of the merge\<close>

text \<open>
  Deduplication as the specification words it: the first element of every key is kept
  and the later elements of that key are removed.
\<close>

fun firstPerKey :: "('a \<Rightarrow> 'k) \<Rightarrow> 'a list \<Rightarrow> 'a list" where
  "firstPerKey key [] = []"
| "firstPerKey key (x # xs) = x # firstPerKey key (filter (\<lambda>y. key y \<noteq> key x) xs)"

text \<open>The fragments of one key, in arrival order.\<close>

definition arrivalsOf :: "string \<Rightarrow> ExtractedData list \<Rightarrow> ExtractedData list" where
  "arrivalsOf k rawList = filter (\<lambda>f. fragKey f = k) rawList"

text \<open>Ordered by depth, with no two elements of the same depth key.\<close>

definition layersOrdered :: "ExtractedData \<Rightarrow> bool" where
  "layersOrdered b = (sorted (map depthFrom (layers b)) \<and> distinct (map layerKey (layers b)))"

definition sptOrdered :: "ExtractedData \<Rightarrow> bool" where
  "sptOrdered b = (sorted (map depth (spt b)) \<and> distinct (map depth (spt b)))"


section \<open>Sample records\<close>

text \<open>
  Records of the shape \<open>parseBoreholeLog\<close> builds, used in the examples below: a header
  with the placeholders that function fills in, a layer and an SPT record.
\<close>

definition sampleHeader :: "string \<Rightarrow> HeaderData" where
  "sampleHeader n =
     \<lparr> projectName = [], boreholeName = n, date = [], elevation = ''0.00'',
       coordinates = [], client = [], waterTable = ''-'' \<rparr>"

definition sampleLayer :: "rat \<Rightarrow> rat \<Rightarrow> string \<Rightarrow> SoilLayer" where
  "sampleLayer a b d =
     \<lparr> layer_id = [], depthFrom = a, depthTo = b, description = d, uscs = ''CL'',
       finePercent = None, plasticity = None, swelling = None, colorText = None,
       color = Some ''#FFFFFF'', pattern = Some Diagonal \<rparr>"

definition sampleSpt :: "rat \<Rightarrow> rat \<Rightarrow> SPTRecord" where
  "sampleSpt d v = \<lparr> spt_id = [], depth = d, spt_value = v, spt_notes = Some [] \<rparr>"

definition sampleFragment :: "string \<Rightarrow> SoilLayer list \<Rightarrow> SPTRecord list \<Rightarrow> ExtractedData" where
  "sampleFragment n ls ss =
     \<lparr> internalId = [], header = sampleHeader n, layers = ls, spt = ss \<rparr>"

text \<open>
  One collation, for the examples that need one. On the printable ASCII characters it
  has the order of the root collation of the Unicode CLDR at its first level: the
  space, then the punctuation marks and symbols in the order of \<open>punctuationOrder\<close>
  (given by their codes; the underscore comes before the hyphen), then the numbers,
  then the letters, a capital letter having the weight of its small letter. A run of
  digits has one weight followed by its value. The other characters are put after
  the letters, by their codes.
\<close>

definition punctuationOrder :: "nat list" where
  "punctuationOrder =
     [32, 95, 45, 44, 59, 58, 33, 63, 46, 39, 34, 40, 41, 91, 93, 123, 125, 64, 42, 47, 92,
      38, 35, 37, 96, 94, 43, 60, 61, 62, 124, 126, 36]"

definition sampleCollation :: collation where
  "sampleCollation =
     \<lparr> charPrimary = (\<lambda>c. let n = (of_char c :: nat)
                          in if n \<in> set punctuationOrder
                             then [length (takeWhile (\<lambda>m. m \<noteq> n) punctuationOrder)]
                             else if 65 \<le> n \<and> n \<le> 90 then [200 + n + 32]
                             else if 97 \<le> n \<and> n \<le> 122 then [200 + n]
                             else [1000 + n]),
       digitsPrimary = (\<lambda>ds. [100, digitsValue ds]) \<rparr>"

section \<open>The reconciliation with the header objects in a store\<close>

text \<open>
  \<open>mergedMap[name] = { ...item }\<close> copies the four properties of the fragment into a
  new object: the copy has its own \<open>layers\<close> and \<open>spt\<close> properties, which the merge
  branch reassigns, but its \<open>header\<close> is the very header object of the fragment, which
  the merge branch writes into. To follow these writes the header objects are kept in
  a store, and a record holds the address of its header. Every fragment of
  \<open>parseBoreholeLog\<close> is built with a header object of its own: the header of the
  fragment at position \<open>i\<close> of the list lives at address \<open>i\<close>, so every address in use is
  below the length of the store.
\<close>

record FragmentObj =
  obj_internalId :: string
  obj_header :: nat
  obj_layers :: "SoilLayer list"
  obj_spt :: "SPTRecord list"

type_synonym headerStore = "HeaderData list"

definition objectAt :: "nat \<Rightarrow> ExtractedData \<Rightarrow> FragmentObj" where
  "objectAt i f =
     \<lparr> obj_internalId = internalId f, obj_header = i, obj_layers = layers f, obj_spt = spt f \<rparr>"

definition objectsFrom :: "nat \<Rightarrow> ExtractedData list \<Rightarrow> FragmentObj list" where
  "objectsFrom i fs = map (\<lambda>(j, f). objectAt j f) (zip [i ..< i + length fs] fs)"

text \<open>The record an object stands for, with the header read from the store.\<close>

definition deref :: "headerStore \<Rightarrow> FragmentObj \<Rightarrow> ExtractedData" where
  "deref st obj =
     \<lparr> internalId = obj_internalId obj, header = st ! obj_header obj,
       layers = obj_layers obj, spt = obj_spt obj \<rparr>"

definition mergeItemSt ::
  "headerStore \<times> (string \<times> FragmentObj) list \<Rightarrow> FragmentObj
     \<Rightarrow> error + headerStore \<times> (string \<times> FragmentObj) list" where
  "mergeItemSt s item =
     (let st = fst s; m = snd s;
          name = trim (boreholeName (st ! obj_header item)) in
      if name = [] then Inr (st, m)
      else (case map_of m name of
              None \<Rightarrow> if name \<in> set prototypeKeys then Inl TypeError
                      else Inr (st, setProp name item m)
            | Some existing \<Rightarrow>
                Inr (st[obj_header existing :=
                          mergeHeader (st ! obj_header existing) (st ! obj_header item)],
                     setProp name
                       (existing\<lparr> obj_layers := mergeLayers (obj_layers existing) (obj_layers item),
                                  obj_spt := mergeSpt (obj_spt existing) (obj_spt item) \<rparr>)
                       m)))"

fun forEachMergeSt ::
  "FragmentObj list \<Rightarrow> headerStore \<times> (string \<times> FragmentObj) list
     \<Rightarrow> error + headerStore \<times> (string \<times> FragmentObj) list" where
  "forEachMergeSt [] s = Inr s"
| "forEachMergeSt (item # rest) s =
     (case mergeItemSt s item of Inl e \<Rightarrow> Inl e | Inr s' \<Rightarrow> forEachMergeSt rest s')"

text \<open>
  The result is the list returned and, beside it, the list \<open>rawList\<close> as the call leaves
  it.
\<close>

definition mergeBoreholesSt ::
  "collation \<Rightarrow> ExtractedData list \<Rightarrow> error + ExtractedData list \<times> ExtractedData list" where
  "mergeBoreholesSt col rawList =
     (case forEachMergeSt (objectsFrom 0 rawList) (map header rawList, []) of
        Inl e \<Rightarrow> Inl e
      | Inr s \<Rightarrow>
          Inr (sort_key (nameKey col) (map (deref (fst s)) (Object_values (snd s))),
               map (deref (fst s)) (objectsFrom 0 rawList)))"

text \<open>
  The relation kept by the loop between the store model and the model by values,
  after \<open>i\<close> fragments: the map of the one is the map of the other with the headers
  read from the store, every record of the map has the header of a fragment already
  seen, and no two records share a header.
\<close>

definition simulates ::
  "nat \<Rightarrow> headerStore \<Rightarrow> (string \<times> FragmentObj) list \<Rightarrow> mergedMap \<Rightarrow> bool" where
  "simulates i st M m \<longleftrightarrow>
     m = map (\<lambda>(k, obj). (k, deref st obj)) M
     \<and> (\<forall>p \<in> set M. obj_header (snd p) < i)
     \<and> distinct (map (\<lambda>p. obj_header (snd p)) M)
     \<and> distinct (map fst M)
     \<and> i \<le> length st"

section \<open>Properties of the reconciliation\<close>

subsection \<open>Deduplication and stable sorting\<close>

lemma filterSeen_subset: "set (filterSeen key seen xs) \<subseteq> set xs"
  by (induction xs arbitrary: seen) auto

lemma filterSeen_keys: "x \<in> set (filterSeen key seen xs) \<Longrightarrow> key x \<notin> set seen"
  by (induction xs arbitrary: seen) (force split: if_splits)+

lemma filterSeen_distinct: "distinct (map key (filterSeen key seen xs))"
  by (induction xs arbitrary: seen) (auto dest: filterSeen_keys)

lemma filterSeen_sorted:
  "sorted (map f xs) \<Longrightarrow> sorted (map f (filterSeen key seen xs))"
proof (induction xs arbitrary: seen)
  case Nil
  then show ?case by simp
next
  case (Cons x xs)
  have "\<forall>y \<in> set (filterSeen key s xs). f x \<le> f y" for s
    using Cons.prems filterSeen_subset [of key s xs] by auto
  with Cons show ?case by auto
qed

lemma filterSeen_find:
  "List.find (\<lambda>x. key x = k) (filterSeen key seen xs) =
     (if k \<in> set seen then None else List.find (\<lambda>x. key x = k) xs)"
proof (induction xs arbitrary: seen)
  case Nil
  then show ?case by simp
next
  case (Cons x xs)
  show ?case
  proof (cases "key x \<in> set seen")
    case True
    then show ?thesis using Cons.IH [of seen] by auto
  next
    case False
    then show ?thesis using Cons.IH [of "key x # seen"] by auto
  qed
qed

lemma filterSeen_filter:
  "filterSeen key seen xs = firstPerKey key (filter (\<lambda>x. key x \<notin> set seen) xs)"
proof (induction xs arbitrary: seen)
  case Nil
  then show ?case by simp
next
  case (Cons x xs)
  have eq: "filter (\<lambda>y. key y \<noteq> key x) (filter (\<lambda>y. key y \<notin> set seen) xs)
          = filter (\<lambda>y. key y \<notin> set (key x # seen)) xs"
    by (induction xs) auto
  show ?case
  proof (cases "key x \<in> set seen")
    case True
    then show ?thesis using Cons.IH [of seen] by simp
  next
    case False
    then show ?thesis using Cons.IH [of "key x # seen"] eq by simp
  qed
qed

lemma filterSeen_firstPerKey: "filterSeen key [] xs = firstPerKey key xs"
  by (simp add: filterSeen_filter)

lemma find_filter_key:
  "(\<And>x. P x \<Longrightarrow> Q x) \<Longrightarrow> List.find P (filter Q xs) = List.find P xs"
  by (induction xs) auto

lemma find_sort_key_stable:
  assumes "\<And>x. key x = k \<Longrightarrow> f x = a"
  shows "List.find (\<lambda>x. key x = k) (sort_key f xs) = List.find (\<lambda>x. key x = k) xs"
proof -
  have "List.find (\<lambda>x. key x = k) (sort_key f xs)
      = List.find (\<lambda>x. key x = k) (filter (\<lambda>y. f y = a) (sort_key f xs))"
    using assms by (simp add: find_filter_key)
  also have "\<dots> = List.find (\<lambda>x. key x = k) (filter (\<lambda>y. f y = a) xs)"
    by (simp only: sort_key_stable)
  also have "\<dots> = List.find (\<lambda>x. key x = k) xs"
    using assms by (simp add: find_filter_key)
  finally show ?thesis .
qed

lemma mergeLayers_nonempty:
  assumes "incoming \<noteq> []"
  shows "mergeLayers existing incoming = firstPerKey layerKey (sort_key depthFrom (existing @ incoming))"
    and "sorted (map depthFrom (mergeLayers existing incoming))"
    and "distinct (map layerKey (mergeLayers existing incoming))"
    and "List.find (\<lambda>l. layerKey l = k) (mergeLayers existing incoming)
           = List.find (\<lambda>l. layerKey l = k) (existing @ incoming)"
proof -
  have m: "mergeLayers existing incoming = filterSeen layerKey [] (sort_key depthFrom (existing @ incoming))"
    using assms by (simp add: mergeLayers_def)
  show "mergeLayers existing incoming = firstPerKey layerKey (sort_key depthFrom (existing @ incoming))"
    by (simp only: m filterSeen_firstPerKey)
  show "sorted (map depthFrom (mergeLayers existing incoming))"
    by (simp only: m filterSeen_sorted sorted_sort_key)
  show "distinct (map layerKey (mergeLayers existing incoming))"
    by (simp only: m filterSeen_distinct)
  have "List.find (\<lambda>l. layerKey l = k) (sort_key depthFrom (existing @ incoming))
      = List.find (\<lambda>l. layerKey l = k) (existing @ incoming)"
    by (rule find_sort_key_stable [where a = "fst k"]) (auto simp: layerKey_def)
  then show "List.find (\<lambda>l. layerKey l = k) (mergeLayers existing incoming)
           = List.find (\<lambda>l. layerKey l = k) (existing @ incoming)"
    by (simp add: m filterSeen_find)
qed

lemma mergeSpt_nonempty:
  assumes "incoming \<noteq> []"
  shows "mergeSpt existing incoming = firstPerKey depth (sort_key depth (existing @ incoming))"
    and "sorted (map depth (mergeSpt existing incoming))"
    and "distinct (map depth (mergeSpt existing incoming))"
    and "List.find (\<lambda>s. depth s = k) (mergeSpt existing incoming)
           = List.find (\<lambda>s. depth s = k) (existing @ incoming)"
proof -
  have m: "mergeSpt existing incoming = filterSeen depth [] (sort_key depth (existing @ incoming))"
    using assms by (simp add: mergeSpt_def)
  show "mergeSpt existing incoming = firstPerKey depth (sort_key depth (existing @ incoming))"
    by (simp only: m filterSeen_firstPerKey)
  show "sorted (map depth (mergeSpt existing incoming))"
    by (simp only: m filterSeen_sorted sorted_sort_key)
  show "distinct (map depth (mergeSpt existing incoming))"
    by (simp only: m filterSeen_distinct)
  have "List.find (\<lambda>s. depth s = k) (sort_key depth (existing @ incoming))
      = List.find (\<lambda>s. depth s = k) (existing @ incoming)"
    by (rule find_sort_key_stable [where a = k]) auto
  then show "List.find (\<lambda>s. depth s = k) (mergeSpt existing incoming)
           = List.find (\<lambda>s. depth s = k) (existing @ incoming)"
    by (simp add: m filterSeen_find)
qed

subsection \<open>The map and the loop\<close>

lemma map_of_setProp: "map_of (setProp k v m) = (map_of m)(k \<mapsto> v)"
  by (induction m) (auto simp: fun_eq_iff)

lemma keys_setProp_present:
  "k \<in> set (map fst m) \<Longrightarrow> map fst (setProp k v m) = map fst m"
  by (induction m) force+

lemma keys_setProp_absent:
  "k \<notin> set (map fst m) \<Longrightarrow> map fst (setProp k v m) = map fst m @ [k]"
  by (induction m) auto

lemma fragKey_mergeInto: "fragKey (mergeInto e i) = fragKey e"
  by (simp add: fragKey_def mergeInto_def mergeHeader_def)

lemma fragKey_foldl_mergeInto: "fragKey (foldl mergeInto e fs) = fragKey e"
  by (induction fs arbitrary: e) (simp_all add: fragKey_mergeInto)

lemma mergeItem_cases:
  "mergeItem m item =
     (if fragKey item = [] then Inr m
      else if map_of m (fragKey item) = None \<and> fragKey item \<in> set prototypeKeys then Inl TypeError
      else Inr (setProp (fragKey item)
                  (case map_of m (fragKey item) of None \<Rightarrow> item | Some e \<Rightarrow> mergeInto e item) m))"
  by (simp add: mergeItem_def Let_def split: option.splits)

lemma forEachMerge_lookup:
  assumes "forEachMerge raw m = Inr m'"
  shows "map_of m' k =
           (if k = [] then map_of m k
            else case map_of m k of
                   Some e \<Rightarrow> Some (foldl mergeInto e (arrivalsOf k raw))
                 | None \<Rightarrow> (case arrivalsOf k raw of [] \<Rightarrow> None
                             | f # fs \<Rightarrow> Some (foldl mergeInto f fs)))"
  using assms
proof (induction raw arbitrary: m)
  case Nil
  then show ?case by (simp add: arrivalsOf_def split: option.splits)
next
  case (Cons item rest)
  from Cons.prems obtain m1 where m1: "mergeItem m item = Inr m1"
    and r: "forEachMerge rest m1 = Inr m'"
    by (auto split: sum.splits)
  note IH = Cons.IH [OF r]
  show ?case
  proof (cases "fragKey item = []")
    case True
    with m1 have m1_m: "m1 = m" by (simp add: mergeItem_cases)
    show ?thesis
    proof (cases "k = []")
      case True
      then show ?thesis using IH m1_m by simp
    next
      case False
      with \<open>fragKey item = []\<close> have eq: "arrivalsOf k (item # rest) = arrivalsOf k rest"
        by (simp add: arrivalsOf_def)
      show ?thesis unfolding eq m1_m [symmetric] using IH False by simp
    qed
  next
    case nonempty: False
    with m1 have m1_eq: "m1 = setProp (fragKey item)
        (case map_of m (fragKey item) of None \<Rightarrow> item | Some e \<Rightarrow> mergeInto e item) m"
      by (simp add: mergeItem_cases split: if_splits)
    show ?thesis
    proof (cases "k = fragKey item")
      case True
      then show ?thesis using IH nonempty m1_eq
        by (simp add: map_of_setProp arrivalsOf_def split: option.splits)
    next
      case False
      then have eq: "arrivalsOf k (item # rest) = arrivalsOf k rest"
        by (auto simp: arrivalsOf_def)
      from False have lk: "map_of m1 k = map_of m k"
        by (simp add: m1_eq map_of_setProp)
      show ?thesis unfolding eq lk [symmetric] using IH by simp
    qed
  qed
qed

lemma keys_setProp: "set (map fst (setProp k v m)) = insert k (set (map fst m))"
  by (induction m) (simp_all, force)

lemma distinct_setProp: "distinct (map fst m) \<Longrightarrow> distinct (map fst (setProp k v m))"
  by (induction m) (auto simp: keys_setProp simp del: set_map)

lemma forEachMerge_distinct:
  assumes "forEachMerge raw m = Inr m'" "distinct (map fst m)"
  shows "distinct (map fst m')"
  using assms
proof (induction raw arbitrary: m)
  case Nil
  then show ?case by simp
next
  case (Cons item rest)
  from Cons.prems obtain m1 where m1: "mergeItem m item = Inr m1"
    and r: "forEachMerge rest m1 = Inr m'"
    by (auto split: sum.splits)
  have "distinct (map fst (setProp k v m))" for k v
    using Cons.prems(2) by (rule distinct_setProp)
  with m1 Cons.prems(2) have "distinct (map fst m1)"
    by (auto simp: mergeItem_cases split: if_splits)
  with Cons.IH r show ?case by blast
qed

lemma forEachMerge_succeeds:
  assumes "\<forall>f \<in> set raw. fragKey f \<notin> set prototypeKeys"
  shows "\<exists>m'. forEachMerge raw m = Inr m'"
  using assms
proof (induction raw arbitrary: m)
  case Nil
  then show ?case by simp
next
  case (Cons item rest)
  then have "\<exists>m1. mergeItem m item = Inr m1"
    by (simp add: mergeItem_cases)
  then obtain m1 where "mergeItem m item = Inr m1" ..
  with Cons show ?case by simp
qed


lemma set_Object_values: "set (Object_values m) = snd ` set m"
  by (auto simp: Object_values_def)

lemma mergeBoreholes_Inr:
  "mergeBoreholes col raw = Inr out \<longleftrightarrow>
     (\<exists>m. forEachMerge raw [] = Inr m \<and> out = sort_key (nameKey col) (Object_values m))"
  by (auto simp: mergeBoreholes_def split: sum.splits)

lemma mergeBoreholes_set:
  assumes "mergeBoreholes col raw = Inr out"
  shows "\<exists>m. forEachMerge raw [] = Inr m \<and> distinct (map fst m) \<and> set out = ran (map_of m)"
proof -
  from assms obtain m where m: "forEachMerge raw [] = Inr m"
    and out: "out = sort_key (nameKey col) (Object_values m)"
    by (auto simp: mergeBoreholes_Inr)
  have d: "distinct (map fst m)"
    using forEachMerge_distinct [OF m] by simp
  have "set out = snd ` set m" using out by (simp add: set_Object_values)
  with d m show ?thesis by (auto simp: ran_distinct)
qed


subsection \<open>Evaluating the loop step by step\<close>

lemmas sample_defs = sampleHeader_def sampleLayer_def sampleSpt_def sampleFragment_def

lemma mergeItem_skip: "fragKey item = [] \<Longrightarrow> mergeItem m item = Inr m"
  by (simp add: mergeItem_cases)

lemma mergeItem_new:
  "fragKey item = k \<Longrightarrow> k \<noteq> [] \<Longrightarrow> map_of m k = None \<Longrightarrow> k \<notin> set prototypeKeys
     \<Longrightarrow> mergeItem m item = Inr (setProp k item m)"
  by (simp add: mergeItem_cases)

lemma mergeItem_prototype:
  "fragKey item = k \<Longrightarrow> k \<noteq> [] \<Longrightarrow> map_of m k = None \<Longrightarrow> k \<in> set prototypeKeys
     \<Longrightarrow> mergeItem m item = Inl TypeError"
  by (simp add: mergeItem_cases)

lemma mergeItem_merge:
  "fragKey item = k \<Longrightarrow> k \<noteq> [] \<Longrightarrow> map_of m k = Some e
     \<Longrightarrow> mergeItem m item = Inr (setProp k (mergeInto e item) m)"
  by (simp add: mergeItem_cases)

lemma mergeLayers_empty: "mergeLayers existing [] = existing"
  by (simp add: mergeLayers_def)

lemma mergeSpt_empty: "mergeSpt existing [] = existing"
  by (simp add: mergeSpt_def)

lemma fragKey_sample_A: "fragKey (sampleFragment ''A'' ls ss) = ''A''"
  by (simp add: fragKey_def sample_defs trim_def isSpace_def)

lemma mergeInto_sample_same:
  "mergeInto (sampleFragment n ls ss) (sampleFragment n [] []) = sampleFragment n ls ss"
  by (simp add: mergeInto_def mergeLayers_empty mergeSpt_empty sampleFragment_def mergeHeader_def sampleHeader_def)

lemma not_index_A: "\<not> isArrayIndex ''A''"
  by (simp add: isArrayIndex_def isDigit_def)

lemma A_not_prototype: "''A'' \<notin> set prototypeKeys"
  by (simp add: prototypeKeys_def)

lemma mergeBoreholes_two_A:
  "mergeBoreholes col [sampleFragment ''A'' ls ss, sampleFragment ''A'' ls' ss']
     = Inr [mergeInto (sampleFragment ''A'' ls ss) (sampleFragment ''A'' ls' ss')]"
proof -
  let ?a = "sampleFragment ''A'' ls ss" and ?b = "sampleFragment ''A'' ls' ss'"
  have 1: "mergeItem [] ?a = Inr [(''A'', ?a)]"
    using mergeItem_new [of ?a "''A''" "[]"] by (simp add: fragKey_sample_A A_not_prototype)
  have 2: "mergeItem [(''A'', ?a)] ?b = Inr [(''A'', mergeInto ?a ?b)]"
    using mergeItem_merge [of ?b "''A''" "[(''A'', ?a)]" ?a] by (simp add: fragKey_sample_A)
  have "forEachMerge [?a, ?b] [] = Inr [(''A'', mergeInto ?a ?b)]"
    by (simp add: 1 2)
  then show ?thesis
    by (simp add: mergeBoreholes_def Object_values_def not_index_A)
qed

lemma mergeBoreholes_one_A:
  "mergeBoreholes col [sampleFragment ''A'' ls ss] = Inr [sampleFragment ''A'' ls ss]"
proof -
  let ?a = "sampleFragment ''A'' ls ss"
  have 1: "mergeItem [] ?a = Inr [(''A'', ?a)]"
    using mergeItem_new [of ?a "''A''" "[]"] by (simp add: fragKey_sample_A A_not_prototype)
  have "forEachMerge [?a] [] = Inr [(''A'', ?a)]"
    by (simp add: 1)
  then show ?thesis
    by (simp add: mergeBoreholes_def Object_values_def not_index_A)
qed

lemma Object_values_single: "Object_values [(k, v)] = [v]"
  by (simp add: Object_values_def)

lemma mergeBoreholes_pair_same_key:
  assumes "fragKey a = k" "fragKey b = k" "k \<noteq> []" "k \<notin> set prototypeKeys"
  shows "mergeBoreholes col [a, b] = Inr [mergeInto a b]"
proof -
  have 1: "mergeItem [] a = Inr [(k, a)]"
    using mergeItem_new [of a k "[]"] assms by simp
  have 2: "mergeItem [(k, a)] b = Inr [(k, mergeInto a b)]"
    using mergeItem_merge [of b k "[(k, a)]" a] assms by simp
  have "forEachMerge [a, b] [] = Inr [(k, mergeInto a b)]"
    by (simp add: 1 2)
  then show ?thesis
    by (simp add: mergeBoreholes_def Object_values_single)
qed

lemma fragKey_named_A: "boreholeName (header f) = ''A'' \<Longrightarrow> fragKey f = ''A''"
  by (simp add: fragKey_def trim_def isSpace_def)

lemma fragKey_sample: "fragKey (sampleFragment n ls ss) = trim n"
  by (simp add: fragKey_def sampleFragment_def sampleHeader_def)

lemma trim_names:
  "trim ''A'' = ''A''" "trim ''B'' = ''B''"
  "trim ''BH-1'' = ''BH-1''" "trim ''BH-2'' = ''BH-2''" "trim ''BH-10'' = ''BH-10''"
  "trim ''constructor'' = ''constructor''"
  by (simp_all add: trim_def isSpace_def)






subsection \<open>The record of a key is the fold of its fragments\<close>

lemma layersOrdered_mergeInto:
  "layers i \<noteq> [] \<or> layersOrdered e \<Longrightarrow> layersOrdered (mergeInto e i)"
  using mergeLayers_nonempty(2,3) [where incoming = "layers i" and existing = "layers e"]
  by (cases "layers i = []") (auto simp: layersOrdered_def mergeInto_def mergeLayers_empty)

lemma sptOrdered_mergeInto:
  "spt i \<noteq> [] \<or> sptOrdered e \<Longrightarrow> sptOrdered (mergeInto e i)"
  using mergeSpt_nonempty(2,3) [where incoming = "spt i" and existing = "spt e"]
  by (cases "spt i = []") (auto simp: sptOrdered_def mergeInto_def mergeSpt_empty)

lemma layersOrdered_foldl:
  "layersOrdered e \<or> (\<exists>f \<in> set fs. layers f \<noteq> []) \<Longrightarrow> layersOrdered (foldl mergeInto e fs)"
proof (induction fs arbitrary: e)
  case Nil
  then show ?case by simp
next
  case (Cons f fs)
  show ?case
  proof (cases "layers f \<noteq> [] \<or> layersOrdered e")
    case True
    then have "layersOrdered (mergeInto e f)" by (rule layersOrdered_mergeInto)
    then show ?thesis using Cons.IH [of "mergeInto e f"] by simp
  next
    case False
    with Cons.prems have "\<exists>g \<in> set fs. layers g \<noteq> []" by auto
    then show ?thesis using Cons.IH [of "mergeInto e f"] by simp
  qed
qed

lemma sptOrdered_foldl:
  "sptOrdered e \<or> (\<exists>f \<in> set fs. spt f \<noteq> []) \<Longrightarrow> sptOrdered (foldl mergeInto e fs)"
proof (induction fs arbitrary: e)
  case Nil
  then show ?case by simp
next
  case (Cons f fs)
  show ?case
  proof (cases "spt f \<noteq> [] \<or> sptOrdered e")
    case True
    then have "sptOrdered (mergeInto e f)" by (rule sptOrdered_mergeInto)
    then show ?thesis using Cons.IH [of "mergeInto e f"] by simp
  next
    case False
    with Cons.prems have "\<exists>g \<in> set fs. spt g \<noteq> []" by auto
    then show ?thesis using Cons.IH [of "mergeInto e f"] by simp
  qed
qed

text \<open>Every record of the output is the fold of its key's fragments.\<close>

lemma forEachMerge_empty_lookup:
  assumes "forEachMerge raw [] = Inr m"
  shows "map_of m k = (case arrivalsOf k raw of [] \<Rightarrow> None | f # fs \<Rightarrow> if k = [] then None else Some (foldl mergeInto f fs))"
  using forEachMerge_lookup [OF assms, of k] by (auto split: list.splits)

lemma mergeBoreholes_member:
  assumes "mergeBoreholes col raw = Inr out" "b \<in> set out"
  shows "\<exists>f fs. arrivalsOf (fragKey b) raw = f # fs \<and> b = foldl mergeInto f fs"
proof -
  from mergeBoreholes_set [OF assms(1)] obtain m
    where m: "forEachMerge raw [] = Inr m" and out: "set out = ran (map_of m)"
    by blast
  from assms(2) out obtain k where k: "map_of m k = Some b"
    by (auto simp: ran_def)
  with forEachMerge_empty_lookup [OF m, of k] obtain f fs
    where a: "arrivalsOf k raw = f # fs" and b: "b = foldl mergeInto f fs"
    by (auto split: list.splits if_splits)
  from a have "f \<in> set (arrivalsOf k raw)" by simp
  then have "fragKey f = k" by (simp add: arrivalsOf_def)
  with b have "fragKey b = k" by (simp add: fragKey_foldl_mergeInto)
  with a b show ?thesis by blast
qed

lemma arrivalsOf_member: "f \<in> set raw \<Longrightarrow> f \<in> set (arrivalsOf (fragKey f) raw)"
  by (simp add: arrivalsOf_def)

lemma arrivalsOf_subset: "set (arrivalsOf k raw) \<subseteq> set raw"
  by (auto simp: arrivalsOf_def)

text \<open>A fragment without layers leaves the layers of the record, and likewise for SPT.\<close>

lemma layers_foldl_kept:
  "\<forall>g \<in> set fs. layers g = [] \<Longrightarrow> layers (foldl mergeInto e fs) = layers e"
  by (induction fs arbitrary: e) (simp_all add: mergeInto_def mergeLayers_empty)

lemma spt_foldl_kept:
  "\<forall>g \<in> set fs. spt g = [] \<Longrightarrow> spt (foldl mergeInto e fs) = spt e"
  by (induction fs arbitrary: e) (simp_all add: mergeInto_def mergeSpt_empty)

subsection \<open>The output as a whole\<close>



lemma trim_all_space: "list_all isSpace s \<Longrightarrow> trim s = []"
proof -
  assume "list_all isSpace s"
  then have e: "dropWhile isSpace s = []" by (simp add: list_all_iff)
  show ?thesis unfolding trim_def e by simp
qed

lemma forEachMerge_dom:
  assumes "forEachMerge raw m = Inr m'"
  shows "set (map fst m') = set (map fst m) \<union> (fragKey ` set raw - {[]})"
  using assms
proof (induction raw arbitrary: m)
  case Nil
  then show ?case by simp
next
  case (Cons item rest)
  from Cons.prems obtain m1 where m1: "mergeItem m item = Inr m1"
    and r: "forEachMerge rest m1 = Inr m'"
    by (auto split: sum.splits)
  have "set (map fst m1) = set (map fst m) \<union> ({fragKey item} - {[]})"
    using m1 by (auto simp: mergeItem_cases keys_setProp simp del: set_map split: if_splits)
  with Cons.IH [OF r] show ?case by auto
qed


subsection \<open>Sort keys of names that end in a number\<close>








subsection \<open>What does not depend on the order of arrival\<close>




















section \<open>The store model and the value model agree\<close>

lemma deref_objectAt: "i < length st \<Longrightarrow> st ! i = header f \<Longrightarrow> deref st (objectAt i f) = f"
  by (simp add: deref_def objectAt_def)

lemma setProp_map_values:
  "map (\<lambda>(k, v). (k, g v)) (setProp k v m) = setProp k (g v) (map (\<lambda>(k, v). (k, g v)) m)"
  by (induction m) auto

lemma Object_values_map_values:
  "Object_values (map (\<lambda>(k, v). (k, g v)) m) = map g (Object_values m)"
proof -
  have f: "filter P (map (\<lambda>(k, v). (k, g v)) m)
         = map (\<lambda>(k, v). (k, g v)) (filter (\<lambda>p. P (fst p, g (snd p))) m)" for P
    by (induction m) auto
  have s: "sort_key (\<lambda>p. h (fst p)) (map (\<lambda>(k, v). (k, g v)) xs)
         = map (\<lambda>(k, v). (k, g v)) (sort_key (\<lambda>p. h (fst p)) xs)" for h :: "string \<Rightarrow> nat" and xs
  proof (induction xs)
    case Nil
    then show ?case by simp
  next
    case (Cons x xs)
    have i: "insort_key (\<lambda>p. h (fst p)) (case x of (k, v) \<Rightarrow> (k, g v)) (map (\<lambda>(k, v). (k, g v)) ys)
           = map (\<lambda>(k, v). (k, g v)) (insort_key (\<lambda>p. h (fst p)) x ys)" for ys
      by (induction ys) (auto simp: case_prod_beta)
    from Cons show ?case by (simp add: i)
  qed
  show ?thesis
    unfolding Object_values_def f s
    by (simp add: case_prod_beta comp_def)
qed

lemma setProp_absent: "k \<notin> set (map fst m) \<Longrightarrow> setProp k v m = m @ [(k, v)]"
  by (induction m) auto

lemma setProp_map_cong:
  assumes "\<And>k' obj. (k', obj) \<in> set M \<Longrightarrow> k' \<noteq> k \<Longrightarrow> g1 obj = g2 obj"
    and "distinct (map fst M)"
  shows "setProp k v (map (\<lambda>(k, obj). (k, g1 obj)) M) = setProp k v (map (\<lambda>(k, obj). (k, g2 obj)) M)"
  using assms
proof (induction M)
  case Nil
  then show ?case by simp
next
  case (Cons p M)
  obtain k0 o0 where p: "p = (k0, o0)" by (cases p)
  show ?case
  proof (cases "k0 = k")
    case True
    with Cons.prems(2) p have nk: "\<forall>q \<in> set M. fst q \<noteq> k" by auto
    have "g1 (snd q) = g2 (snd q)" if "q \<in> set M" for q
      using Cons.prems(1) [of "fst q" "snd q"] that nk by simp
    then have "map (\<lambda>(k, obj). (k, g1 obj)) M = map (\<lambda>(k, obj). (k, g2 obj)) M"
      by (simp add: case_prod_beta)
    with True p show ?thesis by simp
  next
    case False
    then have "g1 o0 = g2 o0" using Cons.prems(1) [of k0 o0] p by simp
    moreover have "setProp k v (map (\<lambda>(k, obj). (k, g1 obj)) M)
                 = setProp k v (map (\<lambda>(k, obj). (k, g2 obj)) M)"
    proof (rule Cons.IH)
      show "g1 obj = g2 obj" if "(k', obj) \<in> set M" "k' \<noteq> k" for k' obj
        using Cons.prems(1) [of k' obj] that by simp
      show "distinct (map fst M)" using Cons.prems(2) by simp
    qed
    ultimately show ?thesis using False p by simp
  qed
qed

lemma setProp_headers_present:
  assumes "map_of M k = Some e" "h v = h e"
  shows "map (\<lambda>p. h (snd p)) (setProp k v M) = map (\<lambda>p. h (snd p)) M"
  using assms
  by (induction M) (auto split: if_splits)

lemma map_of_deref:
  "map_of (map (\<lambda>(k, obj). (k, deref st obj)) M) k = map_option (deref st) (map_of M k)"
  by (simp add: map_of_map)

lemma header_distinct_other:
  assumes "distinct (map (\<lambda>p. obj_header (snd p)) M)" "distinct (map fst M)"
    and "map_of M k = Some e" "(k', obj) \<in> set M" "k' \<noteq> k"
  shows "obj_header obj \<noteq> obj_header e"
proof
  assume eq: "obj_header obj = obj_header e"
  from assms(3) have ke: "(k, e) \<in> set M" by (rule map_of_SomeD)
  from assms(1) have "inj_on (\<lambda>p. obj_header (snd p)) (set M)"
    by (simp add: distinct_map)
  moreover from eq have "(\<lambda>p. obj_header (snd p)) (k', obj) = (\<lambda>p. obj_header (snd p)) (k, e)"
    by simp
  ultimately have "(k', obj) = (k, e)"
    using assms(4) ke by (rule inj_onD)
  with assms(5) show False by simp
qed

lemma mergeItemSt_simulates:
  assumes sim: "simulates i st M m" and i: "i < length st" and hd: "st ! i = header f"
  shows "(mergeItem m f = Inl TypeError \<and> mergeItemSt (st, M) (objectAt i f) = Inl TypeError)
       \<or> (\<exists>st' M' m'. mergeItem m f = Inr m' \<and> mergeItemSt (st, M) (objectAt i f) = Inr (st', M')
            \<and> simulates (Suc i) st' M' m' \<and> length st' = length st
            \<and> (\<forall>j > i. st' ! j = st ! j))"
proof -
  from sim have m: "m = map (\<lambda>(k, obj). (k, deref st obj)) M"
    and lt: "\<forall>p \<in> set M. obj_header (snd p) < i"
    and dh: "distinct (map (\<lambda>p. obj_header (snd p)) M)"
    and dk: "distinct (map fst M)"
    by (simp_all add: simulates_def)
  let ?item = "objectAt i f"
  have name: "trim (boreholeName (st ! obj_header ?item)) = fragKey f"
    by (simp add: objectAt_def hd fragKey_def)
  have item: "deref st ?item = f"
    using i hd by (rule deref_objectAt)
  have look: "map_of m k = map_option (deref st) (map_of M k)" for k
    unfolding m by (rule map_of_deref)
  show ?thesis
  proof (cases "fragKey f = []")
    case True
    then have "mergeItem m f = Inr m" by (rule mergeItem_skip)
    moreover from True have "mergeItemSt (st, M) ?item = Inr (st, M)"
      by (simp add: mergeItemSt_def name)
    moreover have "simulates (Suc i) st M m"
      using sim i by (auto simp: simulates_def)
    ultimately show ?thesis by blast
  next
    case nonempty: False
    show ?thesis
    proof (cases "map_of M (fragKey f)")
      case None
      then have none: "map_of m (fragKey f) = None" by (simp add: look)
      show ?thesis
      proof (cases "fragKey f \<in> set prototypeKeys")
        case True
        with nonempty none have "mergeItem m f = Inl TypeError"
          by (simp add: mergeItem_prototype)
        moreover from True nonempty None have "mergeItemSt (st, M) ?item = Inl TypeError"
          by (simp add: mergeItemSt_def name)
        ultimately show ?thesis by blast
      next
        case False
        with nonempty none have 1: "mergeItem m f = Inr (setProp (fragKey f) f m)"
          by (simp add: mergeItem_new)
        from False nonempty None
        have 2: "mergeItemSt (st, M) ?item = Inr (st, setProp (fragKey f) ?item M)"
          by (simp add: mergeItemSt_def name)
        from None have absent: "fragKey f \<notin> set (map fst M)"
          by (simp add: map_of_eq_None_iff)
        then have app: "setProp (fragKey f) ?item M = M @ [(fragKey f, ?item)]"
          by (rule setProp_absent)
        have "setProp (fragKey f) f m = map (\<lambda>(k, obj). (k, deref st obj)) (setProp (fragKey f) ?item M)"
          unfolding m setProp_map_values item ..
        moreover have "\<forall>p \<in> set (setProp (fragKey f) ?item M). obj_header (snd p) < Suc i"
          unfolding app using lt by (auto simp: objectAt_def less_Suc_eq)
        moreover have "distinct (map (\<lambda>p. obj_header (snd p)) (setProp (fragKey f) ?item M))"
          unfolding app using dh lt by (auto simp: objectAt_def)
        moreover have "distinct (map fst (setProp (fragKey f) ?item M))"
          using dk by (rule distinct_setProp)
        ultimately have "simulates (Suc i) st (setProp (fragKey f) ?item M) (setProp (fragKey f) f m)"
          using i by (simp add: simulates_def)
        with 1 2 show ?thesis by blast
      qed
    next
      case (Some existing)
      let ?a = "obj_header existing"
      let ?st' = "st[?a := mergeHeader (st ! ?a) (st ! obj_header ?item)]"
      let ?e' = "existing\<lparr>obj_layers := mergeLayers (obj_layers existing) (obj_layers ?item),
                          obj_spt := mergeSpt (obj_spt existing) (obj_spt ?item)\<rparr>"
      from Some have mem: "(fragKey f, existing) \<in> set M" by (rule map_of_SomeD)
      with lt have a: "?a < i" by force
      from Some have some: "map_of m (fragKey f) = Some (deref st existing)"
        by (simp add: look)
      with nonempty
      have 1: "mergeItem m f = Inr (setProp (fragKey f) (mergeInto (deref st existing) f) m)"
        by (simp add: mergeItem_merge)
      from nonempty Some
      have 2: "mergeItemSt (st, M) ?item = Inr (?st', setProp (fragKey f) ?e' M)"
        by (simp add: mergeItemSt_def name Let_def)
      have e': "deref ?st' ?e' = mergeInto (deref st existing) f"
        using a i by (simp add: deref_def mergeInto_def objectAt_def hd)
      have other: "deref ?st' obj = deref st obj" if "(k', obj) \<in> set M" "k' \<noteq> fragKey f" for k' obj
      proof -
        from header_distinct_other [OF dh dk Some that] have "obj_header obj \<noteq> ?a" .
        then show ?thesis by (simp add: deref_def)
      qed
      have "map (\<lambda>(k, obj). (k, deref ?st' obj)) (setProp (fragKey f) ?e' M)
          = setProp (fragKey f) (deref ?st' ?e') (map (\<lambda>(k, obj). (k, deref ?st' obj)) M)"
        by (rule setProp_map_values)
      also have "\<dots> = setProp (fragKey f) (deref ?st' ?e') (map (\<lambda>(k, obj). (k, deref st obj)) M)"
        by (rule setProp_map_cong) (simp_all add: other dk)
      finally have s1: "setProp (fragKey f) (mergeInto (deref st existing) f) m
          = map (\<lambda>(k, obj). (k, deref ?st' obj)) (setProp (fragKey f) ?e' M)"
        unfolding e' m by simp
      have hs: "map (\<lambda>p. obj_header (snd p)) (setProp (fragKey f) ?e' M)
              = map (\<lambda>p. obj_header (snd p)) M"
        by (rule setProp_headers_present [OF Some]) simp
      have s2: "\<forall>p \<in> set (setProp (fragKey f) ?e' M). obj_header (snd p) < Suc i"
      proof -
        have "\<forall>x \<in> set (map (\<lambda>p. obj_header (snd p)) (setProp (fragKey f) ?e' M)). x < Suc i"
          unfolding hs using lt by (auto simp: less_Suc_eq)
        then show ?thesis by simp
      qed
      have s3: "distinct (map (\<lambda>p. obj_header (snd p)) (setProp (fragKey f) ?e' M))"
        unfolding hs by (rule dh)
      have s4: "distinct (map fst (setProp (fragKey f) ?e' M))"
        using dk by (rule distinct_setProp)
      have "simulates (Suc i) ?st' (setProp (fragKey f) ?e' M)
              (setProp (fragKey f) (mergeInto (deref st existing) f) m)"
        using s1 s2 s3 s4 i by (simp add: simulates_def)
      moreover have "\<forall>j > i. ?st' ! j = st ! j" using a by simp
      moreover have "length ?st' = length st" by simp
      ultimately show ?thesis using 1 2 by blast
    qed
  qed
qed

lemma objectsFrom_Cons: "objectsFrom i (f # fs) = objectAt i f # objectsFrom (Suc i) fs"
proof -
  have "i < i + length (f # fs)" by simp
  then have "[i ..< i + length (f # fs)] = i # [Suc i ..< i + length (f # fs)]"
    by (rule upt_conv_Cons)
  moreover have "i + length (f # fs) = Suc i + length fs" by simp
  ultimately have u: "[i ..< i + length (f # fs)] = i # [Suc i ..< Suc i + length fs]"
    by (simp only:)
  show ?thesis unfolding objectsFrom_def u by simp
qed

lemma forEachMergeSt_simulates:
  assumes "simulates i st M m" "i + length fs \<le> length st"
    and "\<forall>j < length fs. st ! (i + j) = header (fs ! j)"
  shows "(forEachMerge fs m = Inl TypeError
            \<and> forEachMergeSt (objectsFrom i fs) (st, M) = Inl TypeError)
       \<or> (\<exists>st' M' m'. forEachMerge fs m = Inr m'
            \<and> forEachMergeSt (objectsFrom i fs) (st, M) = Inr (st', M')
            \<and> simulates (i + length fs) st' M' m')"
  using assms
proof (induction fs arbitrary: i st M m)
  case Nil
  then show ?case by (simp add: objectsFrom_def)
next
  case (Cons f fs)
  from Cons.prems(2) have i: "i < length st" by simp
  from Cons.prems(3) have hd: "st ! i = header f" by force
  from mergeItemSt_simulates [OF Cons.prems(1) i hd]
  show ?case
  proof (elim disjE conjE exE)
    assume "mergeItem m f = Inl TypeError" "mergeItemSt (st, M) (objectAt i f) = Inl TypeError"
    then show ?thesis by (simp add: objectsFrom_Cons)
  next
    fix st' M' m'
    assume 1: "mergeItem m f = Inr m'" and 2: "mergeItemSt (st, M) (objectAt i f) = Inr (st', M')"
      and sim: "simulates (Suc i) st' M' m'" and len: "length st' = length st"
      and same: "\<forall>j > i. st' ! j = st ! j"
    have l: "Suc i + length fs \<le> length st'" using Cons.prems(2) len by simp
    have h: "\<forall>j < length fs. st' ! (Suc i + j) = header (fs ! j)"
    proof (intro allI impI)
      fix j assume j: "j < length fs"
      then have "st ! (i + Suc j) = header ((f # fs) ! Suc j)"
        using Cons.prems(3) by (metis length_Cons Suc_less_eq)
      with same show "st' ! (Suc i + j) = header (fs ! j)" by simp
    qed
    from Cons.IH [OF sim l h] show ?thesis
      by (simp add: objectsFrom_Cons 1 2)
  qed
qed

lemma mergeBoreholesSt_value: "map_sum id fst (mergeBoreholesSt col raw) = mergeBoreholes col raw"
proof -
  have s0: "simulates 0 (map header raw) [] []" by (simp add: simulates_def)
  have l0: "0 + length raw \<le> length (map header raw)" by simp
  have h0: "\<forall>j < length raw. map header raw ! (0 + j) = header (raw ! j)" by simp
  from forEachMergeSt_simulates [OF s0 l0 h0]
  show ?thesis
  proof (elim disjE conjE exE)
    assume "forEachMerge raw [] = Inl TypeError"
      "forEachMergeSt (objectsFrom 0 raw) (map header raw, []) = Inl TypeError"
    then show ?thesis by (simp add: mergeBoreholesSt_def mergeBoreholes_def)
  next
    fix st' M' m'
    assume 1: "forEachMerge raw [] = Inr m'"
      and 2: "forEachMergeSt (objectsFrom 0 raw) (map header raw, []) = Inr (st', M')"
      and sim: "simulates (0 + length raw) st' M' m'"
    from sim have "m' = map (\<lambda>(k, obj). (k, deref st' obj)) M'" by (simp add: simulates_def)
    then have "Object_values m' = map (deref st') (Object_values M')"
      by (simp only: Object_values_map_values)
    with 1 2 show ?thesis by (simp add: mergeBoreholesSt_def mergeBoreholes_def)
  qed
qed


section \<open>Claims about the reconciliation\<close>

subsection \<open>C2: layers and SPT records of a fragment on a key already seen\<close>

text \<open>
  Claim C2, as the code has it. When a fragment arrives for a borehole key that
  \<open>mergedMap\<close> already holds, the loop does not throw and stores a merged record under
  that key. If the fragment brings at least one layer, the merged layer list is the
  existing layers followed by the incoming ones, sorted ascending by \<open>depthFrom\<close> and
  deduplicated by the exact pair \<open>(depthFrom, depthTo)\<close> with the first occurrence
  kept; for every such pair the layer that survives is the first layer of that pair in
  "existing, then incoming", as a whole record, so a layer of the earlier fragments
  wins over an incoming one and nothing is merged field by field. If the fragment
  brings no layer, the existing list is kept as it is, neither sorted nor
  deduplicated. The same holds for the SPT records, with \<open>depth\<close> as sort key and as
  deduplication key.
\<close>

theorem C2_merge_on_seen_key:
  assumes "fragKey item \<noteq> []" and "map_of m (fragKey item) = Some existing"
  shows "\<exists>m' merged.
           mergeItem m item = Inr m' \<and> map_of m' (fragKey item) = Some merged
           \<and> (layers item \<noteq> [] \<longrightarrow>
                 layers merged
                   = firstPerKey layerKey (sort_key depthFrom (layers existing @ layers item))
                 \<and> (\<forall>k. List.find (\<lambda>l. layerKey l = k) (layers merged)
                          = List.find (\<lambda>l. layerKey l = k) (layers existing @ layers item)))
           \<and> (layers item = [] \<longrightarrow> layers merged = layers existing)
           \<and> (spt item \<noteq> [] \<longrightarrow>
                 spt merged = firstPerKey depth (sort_key depth (spt existing @ spt item))
                 \<and> (\<forall>d. List.find (\<lambda>s. depth s = d) (spt merged)
                          = List.find (\<lambda>s. depth s = d) (spt existing @ spt item)))
           \<and> (spt item = [] \<longrightarrow> spt merged = spt existing)"
proof -
  let ?merged = "mergeInto existing item"
  have step: "mergeItem m item = Inr (setProp (fragKey item) ?merged m)"
    using assms by (simp add: mergeItem_merge)
  have look: "map_of (setProp (fragKey item) ?merged m) (fragKey item) = Some ?merged"
    by (simp add: map_of_setProp)
  have l: "layers ?merged = mergeLayers (layers existing) (layers item)"
    and s: "spt ?merged = mergeSpt (spt existing) (spt item)"
    by (simp_all add: mergeInto_def)
  have "layers item \<noteq> [] \<longrightarrow>
          layers ?merged = firstPerKey layerKey (sort_key depthFrom (layers existing @ layers item))
          \<and> (\<forall>k. List.find (\<lambda>l. layerKey l = k) (layers ?merged)
                   = List.find (\<lambda>l. layerKey l = k) (layers existing @ layers item))"
    unfolding l using mergeLayers_nonempty(1,4) [where incoming = "layers item" and existing = "layers existing"] by blast
  moreover have "layers item = [] \<longrightarrow> layers ?merged = layers existing"
    unfolding l by (simp add: mergeLayers_empty)
  moreover have "spt item \<noteq> [] \<longrightarrow>
          spt ?merged = firstPerKey depth (sort_key depth (spt existing @ spt item))
          \<and> (\<forall>d. List.find (\<lambda>s. depth s = d) (spt ?merged)
                   = List.find (\<lambda>s. depth s = d) (spt existing @ spt item))"
    unfolding s using mergeSpt_nonempty(1,4) [where incoming = "spt item" and existing = "spt existing"] by blast
  moreover have "spt item = [] \<longrightarrow> spt ?merged = spt existing"
    unfolding s by (simp add: mergeSpt_empty)
  ultimately show ?thesis using step look by blast
qed

text \<open>
  The theorem at two fragments of borehole \<open>A\<close> that both hold a layer \<open>(0, 1)\<close> and an
  SPT record at depth 3: the layer and the record of the first fragment stay.
\<close>

theorem C2_merge_on_seen_key_witness:
  "fragKey (sampleFragment ''A'' [sampleLayer 0 1 ''second''] [sampleSpt 3 7]) \<noteq> []
   \<and> map_of [(''A'', sampleFragment ''A'' [sampleLayer 0 1 ''first''] [sampleSpt 3 20])]
        (fragKey (sampleFragment ''A'' [sampleLayer 0 1 ''second''] [sampleSpt 3 7]))
      = Some (sampleFragment ''A'' [sampleLayer 0 1 ''first''] [sampleSpt 3 20])
   \<and> (\<exists>m' merged.
         mergeItem [(''A'', sampleFragment ''A'' [sampleLayer 0 1 ''first''] [sampleSpt 3 20])]
           (sampleFragment ''A'' [sampleLayer 0 1 ''second''] [sampleSpt 3 7]) = Inr m'
         \<and> map_of m' ''A'' = Some merged
         \<and> layers merged = [sampleLayer 0 1 ''first'']
         \<and> spt merged = [sampleSpt 3 20])"
proof -
  let ?a1 = "sampleFragment ''A'' [sampleLayer 0 1 ''first''] [sampleSpt 3 20]"
  let ?a2 = "sampleFragment ''A'' [sampleLayer 0 1 ''second''] [sampleSpt 3 7]"
  have k: "fragKey ?a2 = ''A''" by (rule fragKey_sample_A)
  have h1: "fragKey ?a2 \<noteq> []" by (simp add: k)
  have h2: "map_of [(''A'', ?a1)] (fragKey ?a2) = Some ?a1" by (simp add: k)
  have l1: "layers ?a1 = [sampleLayer 0 1 ''first'']" "layers ?a2 = [sampleLayer 0 1 ''second'']"
    and s1: "spt ?a1 = [sampleSpt 3 20]" "spt ?a2 = [sampleSpt 3 7]"
    by (simp_all add: sampleFragment_def)
  have e1: "firstPerKey layerKey (sort_key depthFrom ([sampleLayer 0 1 ''first''] @ [sampleLayer 0 1 ''second'']))
              = [sampleLayer 0 1 ''first'']"
    by (simp add: sampleLayer_def layerKey_def)
  have e2: "firstPerKey depth (sort_key depth ([sampleSpt 3 20] @ [sampleSpt 3 7])) = [sampleSpt 3 20]"
    by (simp add: sampleSpt_def)
  from C2_merge_on_seen_key [OF h1 h2] obtain m' merged
    where "mergeItem [(''A'', ?a1)] ?a2 = Inr m'" "map_of m' (fragKey ?a2) = Some merged"
      "layers ?a2 \<noteq> [] \<longrightarrow> layers merged = firstPerKey layerKey (sort_key depthFrom (layers ?a1 @ layers ?a2))"
      "spt ?a2 \<noteq> [] \<longrightarrow> spt merged = firstPerKey depth (sort_key depth (spt ?a1 @ spt ?a2))"
    by blast
  then have "mergeItem [(''A'', ?a1)] ?a2 = Inr m' \<and> map_of m' ''A'' = Some merged
      \<and> layers merged = [sampleLayer 0 1 ''first''] \<and> spt merged = [sampleSpt 3 20]"
    unfolding l1 s1 e1 e2 k by simp
  with h1 h2 show ?thesis by blast
qed

text \<open>
  Claim C2 as it is worded, for every later fragment, fails: a second fragment of
  borehole \<open>A\<close> without layers leaves the two layers of the first fragment in their
  order of arrival, \<open>(1, 2)\<close> before \<open>(0, 1)\<close>, which is not the sorted list.
\<close>

theorem C2_later_fragment_without_layers:
  "mergeBoreholes sampleCollation [sampleFragment ''A'' [sampleLayer 1 2 ''sand'', sampleLayer 0 1 ''fill''] [],
                   sampleFragment ''A'' [] []]
     = Inr [sampleFragment ''A'' [sampleLayer 1 2 ''sand'', sampleLayer 0 1 ''fill''] []]
   \<and> [sampleLayer 1 2 ''sand'', sampleLayer 0 1 ''fill'']
       \<noteq> firstPerKey layerKey
            (sort_key depthFrom ([sampleLayer 1 2 ''sand'', sampleLayer 0 1 ''fill''] @ []))"
proof -
  have "sampleLayer 1 2 ''sand'' \<noteq> sampleLayer 0 1 ''fill''"
    by (simp add: sampleLayer_def)
  then have "[sampleLayer 1 2 ''sand'', sampleLayer 0 1 ''fill'']
       \<noteq> firstPerKey layerKey
            (sort_key depthFrom ([sampleLayer 1 2 ''sand'', sampleLayer 0 1 ''fill''] @ []))"
    by (simp add: sampleLayer_def layerKey_def)
  then show ?thesis
    by (simp only: mergeBoreholes_two_A mergeInto_sample_same simp_thms)
qed

text \<open>
  The example of the specification: two fragments of borehole \<open>A\<close>, each with a layer
  \<open>(0, 1)\<close> and different descriptions, give one layer with the first description.
\<close>

lemma depth_dedup_example:
  "mergeBoreholes sampleCollation [sampleFragment ''A'' [sampleLayer 0 1 ''first''] [],
                   sampleFragment ''A'' [sampleLayer 0 1 ''second''] []]
     = Inr [sampleFragment ''A'' [sampleLayer 0 1 ''first''] []]"
proof -
  have "mergeInto (sampleFragment ''A'' [sampleLayer 0 1 ''first''] [])
                  (sampleFragment ''A'' [sampleLayer 0 1 ''second''] [])
        = sampleFragment ''A'' [sampleLayer 0 1 ''first''] []"
    by (simp add: mergeInto_def mergeLayers_def mergeSpt_empty sampleFragment_def mergeHeader_def
        sampleHeader_def sampleLayer_def layerKey_def)
  then show ?thesis by (simp only: mergeBoreholes_two_A)
qed


subsection \<open>C3: back-fill of the header\<close>

text \<open>
  Claim C3, as the code has it. When a fragment arrives for a borehole key already
  held, the merged record keeps the existing value of \<open>elevation\<close>, \<open>coordinates\<close>,
  \<open>waterTable\<close> and \<open>projectName\<close> unless that value is empty or a placeholder
  (\<open>0.00\<close> for the elevation, \<open>-\<close> for the water table), in which case the value of
  the incoming fragment replaces it; \<open>boreholeName\<close> and \<open>client\<close> keep the existing
  value.
\<close>

theorem C3_header_backfill:
  assumes "fragKey item \<noteq> []" and "map_of m (fragKey item) = Some existing"
  shows "\<exists>m' merged.
           mergeItem m item = Inr m' \<and> map_of m' (fragKey item) = Some merged
           \<and> elevation (header merged)
               = (if elevation (header existing) = [] \<or> elevation (header existing) = ''0.00''
                  then elevation (header item) else elevation (header existing))
           \<and> coordinates (header merged)
               = (if coordinates (header existing) = []
                  then coordinates (header item) else coordinates (header existing))
           \<and> waterTable (header merged)
               = (if waterTable (header existing) = [] \<or> waterTable (header existing) = ''-''
                  then waterTable (header item) else waterTable (header existing))
           \<and> projectName (header merged)
               = (if projectName (header existing) = []
                  then projectName (header item) else projectName (header existing))
           \<and> boreholeName (header merged) = boreholeName (header existing)
           \<and> client (header merged) = client (header existing)"
proof -
  let ?merged = "mergeInto existing item"
  have step: "mergeItem m item = Inr (setProp (fragKey item) ?merged m)"
    using assms by (simp add: mergeItem_merge)
  have look: "map_of (setProp (fragKey item) ?merged m) (fragKey item) = Some ?merged"
    by (simp add: map_of_setProp)
  have h: "header ?merged = mergeHeader (header existing) (header item)"
    by (simp add: mergeInto_def)
  have "elevation (header ?merged)
               = (if elevation (header existing) = [] \<or> elevation (header existing) = ''0.00''
                  then elevation (header item) else elevation (header existing))"
    and "coordinates (header ?merged)
               = (if coordinates (header existing) = []
                  then coordinates (header item) else coordinates (header existing))"
    and "waterTable (header ?merged)
               = (if waterTable (header existing) = [] \<or> waterTable (header existing) = ''-''
                  then waterTable (header item) else waterTable (header existing))"
    and "projectName (header ?merged)
               = (if projectName (header existing) = []
                  then projectName (header item) else projectName (header existing))"
    and "boreholeName (header ?merged) = boreholeName (header existing)"
    and "client (header ?merged) = client (header existing)"
    unfolding h by (auto simp: mergeHeader_def)
  with step look show ?thesis by blast
qed

text \<open>
  The theorem at an existing record with the placeholder elevation and coordinates
  \<open>N 7\<close>, and an incoming fragment with elevation \<open>12.5\<close> and other coordinates.
\<close>

theorem C3_header_backfill_witness:
  "fragKey ((sampleFragment ''A'' [] [])
              \<lparr>header := (sampleHeader ''A'')\<lparr>elevation := ''12.5'', coordinates := ''E 100''\<rparr>\<rparr>) \<noteq> []
   \<and> map_of [(''A'', (sampleFragment ''A'' [] [])\<lparr>header := (sampleHeader ''A'')\<lparr>coordinates := ''N 7''\<rparr>\<rparr>)]
        (fragKey ((sampleFragment ''A'' [] [])
              \<lparr>header := (sampleHeader ''A'')\<lparr>elevation := ''12.5'', coordinates := ''E 100''\<rparr>\<rparr>))
      = Some ((sampleFragment ''A'' [] [])\<lparr>header := (sampleHeader ''A'')\<lparr>coordinates := ''N 7''\<rparr>\<rparr>)
   \<and> (\<exists>m' merged.
         mergeItem [(''A'', (sampleFragment ''A'' [] [])\<lparr>header := (sampleHeader ''A'')\<lparr>coordinates := ''N 7''\<rparr>\<rparr>)]
           ((sampleFragment ''A'' [] [])
              \<lparr>header := (sampleHeader ''A'')\<lparr>elevation := ''12.5'', coordinates := ''E 100''\<rparr>\<rparr>) = Inr m'
         \<and> map_of m' ''A'' = Some merged
         \<and> elevation (header merged) = ''12.5''
         \<and> coordinates (header merged) = ''N 7'')"
proof -
  let ?e = "(sampleFragment ''A'' [] [])\<lparr>header := (sampleHeader ''A'')\<lparr>coordinates := ''N 7''\<rparr>\<rparr>"
  let ?i = "(sampleFragment ''A'' [] [])
              \<lparr>header := (sampleHeader ''A'')\<lparr>elevation := ''12.5'', coordinates := ''E 100''\<rparr>\<rparr>"
  have k: "fragKey ?i = ''A''"
    by (rule fragKey_named_A) (simp add: sampleFragment_def sampleHeader_def)
  have h1: "fragKey ?i \<noteq> []" by (simp add: k)
  have h2: "map_of [(''A'', ?e)] (fragKey ?i) = Some ?e" by (simp add: k)
  have v: "elevation (header ?e) = ''0.00''" "elevation (header ?i) = ''12.5''"
    "coordinates (header ?e) = ''N 7''"
    by (simp_all add: sampleHeader_def)
  from C3_header_backfill [OF h1 h2] obtain m' merged
    where "mergeItem [(''A'', ?e)] ?i = Inr m'" "map_of m' (fragKey ?i) = Some merged"
      "elevation (header merged)
         = (if elevation (header ?e) = [] \<or> elevation (header ?e) = ''0.00''
            then elevation (header ?i) else elevation (header ?e))"
      "coordinates (header merged)
         = (if coordinates (header ?e) = [] then coordinates (header ?i) else coordinates (header ?e))"
    by blast
  then have "mergeItem [(''A'', ?e)] ?i = Inr m' \<and> map_of m' ''A'' = Some merged
      \<and> elevation (header merged) = ''12.5'' \<and> coordinates (header merged) = ''N 7''"
    unfolding v k by simp
  with h1 h2 show ?thesis by blast
qed

text \<open>
  Claim C3 as it is worded fails on two fields: the project name of the first
  fragment is empty and is filled from the second fragment, and the empty date of the
  first fragment is not.
\<close>

theorem C3_projectName_filled_date_kept:
  "map_sum id (map (\<lambda>b. (projectName (header b), date (header b))))
     (mergeBoreholes sampleCollation
        [sampleFragment ''A'' [] [],
         (sampleFragment ''A'' [] [])
           \<lparr>header := (sampleHeader ''A'')\<lparr>projectName := ''Tower'', date := ''2024''\<rparr>\<rparr>])
   = Inr [(''Tower'', [])]"
proof -
  let ?a = "sampleFragment ''A'' [] []"
  let ?b = "(sampleFragment ''A'' [] [])
           \<lparr>header := (sampleHeader ''A'')\<lparr>projectName := ''Tower'', date := ''2024''\<rparr>\<rparr>"
  have kb: "fragKey ?b = ''A''"
    by (rule fragKey_named_A) (simp add: sampleFragment_def sampleHeader_def)
  have m: "mergeBoreholes sampleCollation [?a, ?b] = Inr [mergeInto ?a ?b]"
    by (rule mergeBoreholes_pair_same_key [OF fragKey_sample_A kb]) (simp_all add: A_not_prototype)
  have "projectName (header (mergeInto ?a ?b)) = ''Tower''" "date (header (mergeInto ?a ?b)) = []"
    by (simp_all add: mergeInto_def mergeHeader_def sampleFragment_def sampleHeader_def)
  then show ?thesis by (simp add: m)
qed


subsection \<open>C4: order and distinct depths in the output\<close>

text \<open>
  Claim C4, as the code has it. In every canonical borehole of the output to which a
  fragment after the first of its key brought at least one layer, the layers are in
  ascending order of \<open>depthFrom\<close> and no two of them have the same pair
  \<open>(depthFrom, depthTo)\<close>; and in every canonical borehole to which a fragment after
  the first of its key brought at least one SPT record, the SPT records are in
  ascending order of depth and no two of them have the same depth. A canonical
  borehole built from one fragment, or to which no fragment after the first of its
  key brought a layer, has the layers of the first fragment of its key as they
  arrived, and likewise for the SPT records.
\<close>

theorem C4_ordered_after_later_fragment:
  assumes "mergeBoreholes col raw = Inr out" and "b \<in> set out"
  shows "arrivalsOf (fragKey b) raw \<noteq> []
       \<and> ((\<exists>f \<in> set (tl (arrivalsOf (fragKey b) raw)). layers f \<noteq> [])
            \<longrightarrow> sorted (map depthFrom (layers b)) \<and> distinct (map layerKey (layers b)))
       \<and> ((\<exists>f \<in> set (tl (arrivalsOf (fragKey b) raw)). spt f \<noteq> [])
            \<longrightarrow> sorted (map depth (spt b)) \<and> distinct (map depth (spt b)))
       \<and> ((\<forall>f \<in> set (tl (arrivalsOf (fragKey b) raw)). layers f = [])
            \<longrightarrow> layers b = layers (hd (arrivalsOf (fragKey b) raw)))
       \<and> ((\<forall>f \<in> set (tl (arrivalsOf (fragKey b) raw)). spt f = [])
            \<longrightarrow> spt b = spt (hd (arrivalsOf (fragKey b) raw)))"
proof -
  from mergeBoreholes_member [OF assms] obtain f fs
    where a: "arrivalsOf (fragKey b) raw = f # fs" and b: "b = foldl mergeInto f fs"
    by blast
  have tl: "tl (arrivalsOf (fragKey b) raw) = fs" and hd: "hd (arrivalsOf (fragKey b) raw) = f"
    and ne: "arrivalsOf (fragKey b) raw \<noteq> []"
    by (simp_all add: a)
  have "(\<exists>g \<in> set fs. layers g \<noteq> []) \<longrightarrow> layersOrdered (foldl mergeInto f fs)"
    using layersOrdered_foldl [of f fs] by blast
  moreover have "(\<exists>g \<in> set fs. spt g \<noteq> []) \<longrightarrow> sptOrdered (foldl mergeInto f fs)"
    using sptOrdered_foldl [of f fs] by blast
  moreover have "(\<forall>g \<in> set fs. layers g = []) \<longrightarrow> layers (foldl mergeInto f fs) = layers f"
    using layers_foldl_kept [of fs f] by blast
  moreover have "(\<forall>g \<in> set fs. spt g = []) \<longrightarrow> spt (foldl mergeInto f fs) = spt f"
    using spt_foldl_kept [of fs f] by blast
  ultimately show ?thesis
    unfolding tl hd b [symmetric] using ne by (simp add: layersOrdered_def sptOrdered_def)
qed

text \<open>
  The theorem at two fragments of borehole \<open>A\<close>, the deeper layer and SPT record
  arriving first, and at one fragment of borehole \<open>A\<close> with its layers out of order.
\<close>

theorem C4_ordered_after_later_fragment_witness:
  "mergeBoreholes sampleCollation
       [sampleFragment ''A'' [sampleLayer 2 3 ''clay''] [sampleSpt 3 20],
        sampleFragment ''A'' [sampleLayer 0 1 ''fill''] [sampleSpt 1 5]]
     = Inr [sampleFragment ''A'' [sampleLayer 0 1 ''fill'', sampleLayer 2 3 ''clay'']
                                 [sampleSpt 1 5, sampleSpt 3 20]]
   \<and> sampleFragment ''A'' [sampleLayer 0 1 ''fill'', sampleLayer 2 3 ''clay'']
                          [sampleSpt 1 5, sampleSpt 3 20]
       \<in> set [sampleFragment ''A'' [sampleLayer 0 1 ''fill'', sampleLayer 2 3 ''clay'']
                                   [sampleSpt 1 5, sampleSpt 3 20]]
   \<and> tl (arrivalsOf ''A'' [sampleFragment ''A'' [sampleLayer 2 3 ''clay''] [sampleSpt 3 20],
                            sampleFragment ''A'' [sampleLayer 0 1 ''fill''] [sampleSpt 1 5]])
       = [sampleFragment ''A'' [sampleLayer 0 1 ''fill''] [sampleSpt 1 5]]
   \<and> sorted (map depthFrom [sampleLayer 0 1 ''fill'', sampleLayer 2 3 ''clay''])
   \<and> distinct (map layerKey [sampleLayer 0 1 ''fill'', sampleLayer 2 3 ''clay''])
   \<and> sorted (map depth [sampleSpt 1 5, sampleSpt 3 20])
   \<and> distinct (map depth [sampleSpt 1 5, sampleSpt 3 20])
   \<and> mergeBoreholes sampleCollation
         [sampleFragment ''A'' [sampleLayer 1 2 ''sand'', sampleLayer 0 1 ''fill''] [sampleSpt 3 20]]
       = Inr [sampleFragment ''A'' [sampleLayer 1 2 ''sand'', sampleLayer 0 1 ''fill''] [sampleSpt 3 20]]
   \<and> arrivalsOf ''A''
         [sampleFragment ''A'' [sampleLayer 1 2 ''sand'', sampleLayer 0 1 ''fill''] [sampleSpt 3 20]]
       = [sampleFragment ''A'' [sampleLayer 1 2 ''sand'', sampleLayer 0 1 ''fill''] [sampleSpt 3 20]]
   \<and> layers (sampleFragment ''A'' [sampleLayer 1 2 ''sand'', sampleLayer 0 1 ''fill''] [sampleSpt 3 20])
       = layers (hd [sampleFragment ''A'' [sampleLayer 1 2 ''sand'', sampleLayer 0 1 ''fill''] [sampleSpt 3 20]])
   \<and> spt (sampleFragment ''A'' [sampleLayer 1 2 ''sand'', sampleLayer 0 1 ''fill''] [sampleSpt 3 20])
       = spt (hd [sampleFragment ''A'' [sampleLayer 1 2 ''sand'', sampleLayer 0 1 ''fill''] [sampleSpt 3 20]])"
proof -
  let ?a1 = "sampleFragment ''A'' [sampleLayer 2 3 ''clay''] [sampleSpt 3 20]"
  let ?a2 = "sampleFragment ''A'' [sampleLayer 0 1 ''fill''] [sampleSpt 1 5]"
  let ?b = "sampleFragment ''A'' [sampleLayer 0 1 ''fill'', sampleLayer 2 3 ''clay'']
                                 [sampleSpt 1 5, sampleSpt 3 20]"
  let ?c = "sampleFragment ''A'' [sampleLayer 1 2 ''sand'', sampleLayer 0 1 ''fill''] [sampleSpt 3 20]"
  have mi: "mergeInto ?a1 ?a2 = ?b"
    by (simp add: mergeInto_def mergeLayers_def mergeSpt_def sampleFragment_def mergeHeader_def
        sampleHeader_def sampleLayer_def sampleSpt_def layerKey_def)
  have h1: "mergeBoreholes sampleCollation [?a1, ?a2] = Inr [?b]"
    by (simp only: mergeBoreholes_two_A mi)
  have h2: "?b \<in> set [?b]" by simp
  have kb: "fragKey ?b = ''A''" by (rule fragKey_sample_A)
  have t: "tl (arrivalsOf ''A'' [?a1, ?a2]) = [?a2]"
    by (simp add: arrivalsOf_def fragKey_sample_A)
  have l: "layers ?b = [sampleLayer 0 1 ''fill'', sampleLayer 2 3 ''clay'']"
    and s: "spt ?b = [sampleSpt 1 5, sampleSpt 3 20]"
    and n: "layers ?a2 \<noteq> []" "spt ?a2 \<noteq> []"
    by (simp_all add: sampleFragment_def)
  from C4_ordered_after_later_fragment [OF h1 h2]
  have "sorted (map depthFrom (layers ?b)) \<and> distinct (map layerKey (layers ?b))
      \<and> sorted (map depth (spt ?b)) \<and> distinct (map depth (spt ?b))"
    unfolding kb t using n by simp
  then have first: "sorted (map depthFrom [sampleLayer 0 1 ''fill'', sampleLayer 2 3 ''clay''])
      \<and> distinct (map layerKey [sampleLayer 0 1 ''fill'', sampleLayer 2 3 ''clay''])
      \<and> sorted (map depth [sampleSpt 1 5, sampleSpt 3 20])
      \<and> distinct (map depth [sampleSpt 1 5, sampleSpt 3 20])"
    unfolding l s .
  have g1: "mergeBoreholes sampleCollation [?c] = Inr [?c]"
    by (rule mergeBoreholes_one_A)
  have g2: "?c \<in> set [?c]" by simp
  have kc: "fragKey ?c = ''A''" by (rule fragKey_sample_A)
  have ac: "arrivalsOf ''A'' [?c] = [?c]"
    by (simp add: arrivalsOf_def fragKey_sample_A)
  from C4_ordered_after_later_fragment [OF g1 g2]
  have second: "layers ?c = layers (hd [?c]) \<and> spt ?c = spt (hd [?c])"
    unfolding kc ac by simp
  from h1 h2 t first g1 ac second show ?thesis
    by (elim conjE, intro conjI) assumption+
qed

text \<open>
  Claim C4 as it is worded, for a borehole built from exactly one fragment, fails: the
  record of a first fragment is stored as it arrives, here with its layers out of
  order and two SPT records at depth 3.
\<close>

theorem C4_single_fragment_unordered:
  "mergeBoreholes sampleCollation [sampleFragment ''A'' [sampleLayer 1 2 ''sand'', sampleLayer 0 1 ''fill'']
                                        [sampleSpt 3 20, sampleSpt 3 7]]
     = Inr [sampleFragment ''A'' [sampleLayer 1 2 ''sand'', sampleLayer 0 1 ''fill'']
                                 [sampleSpt 3 20, sampleSpt 3 7]]
   \<and> \<not> sorted (map depthFrom
         (layers (sampleFragment ''A'' [sampleLayer 1 2 ''sand'', sampleLayer 0 1 ''fill'']
                                       [sampleSpt 3 20, sampleSpt 3 7])))
   \<and> \<not> distinct (map depth
         (spt (sampleFragment ''A'' [sampleLayer 1 2 ''sand'', sampleLayer 0 1 ''fill'']
                                    [sampleSpt 3 20, sampleSpt 3 7])))"
proof -
  have "\<not> sorted (map depthFrom [sampleLayer 1 2 ''sand'', sampleLayer 0 1 ''fill''])"
    by (simp add: sampleLayer_def)
  moreover have "\<not> distinct (map depth [sampleSpt 3 20, sampleSpt 3 7])"
    by (simp add: sampleSpt_def)
  moreover have "layers (sampleFragment ''A'' ls ss) = ls" "spt (sampleFragment ''A'' ls ss) = ss" for ls ss
    by (simp_all add: sampleFragment_def)
  ultimately show ?thesis
    by (simp only: mergeBoreholes_one_A simp_thms)
qed


subsection \<open>C5: dependence on the order of arrival\<close>




subsection \<open>C7: order of the output\<close>



subsection \<open>C8: unnamed fragments and failures\<close>

text \<open>
  Claim C8 says that the engine never raises. It does on a fragment whose trimmed
  borehole name is the name of a property of \<open>Object.prototype\<close>: for the single
  fragment named \<open>constructor\<close> the read \<open>mergedMap[name]\<close> gives the inherited
  function, the merge branch is taken, and \<open>existing.header.projectName\<close> throws.
\<close>

theorem C8_prototype_name_raises:
  "mergeBoreholes col [sampleFragment ''constructor'' [] []] = Inl TypeError"
proof -
  have "fragKey (sampleFragment ''constructor'' [] []) = ''constructor''"
    by (simp add: fragKey_sample trim_names)
  then have "mergeItem [] (sampleFragment ''constructor'' [] []) = Inl TypeError"
    by (rule mergeItem_prototype) (simp_all add: prototypeKeys_def)
  then show ?thesis by (simp add: mergeBoreholes_def)
qed

text \<open>
  On inputs without such a name the rest of the claim holds: the engine returns, the
  keys of the output are the non-empty trimmed names of the input, every record of the
  output is built from the fragments of its own key only, and an input of unnamed
  fragments gives the empty list.
\<close>

lemma mergeBoreholes_without_prototype_names:
  assumes "\<forall>f \<in> set raw. fragKey f \<notin> set prototypeKeys"
  shows "\<exists>out. mergeBoreholes col raw = Inr out
           \<and> fragKey ` set out = fragKey ` set raw - {[]}
           \<and> (\<forall>b \<in> set out. \<exists>f fs. arrivalsOf (fragKey b) raw = f # fs \<and> b = foldl mergeInto f fs)"
proof -
  from forEachMerge_succeeds [OF assms] obtain m where m: "forEachMerge raw [] = Inr m"
    by blast
  let ?out = "sort_key (nameKey col) (Object_values m)"
  have r: "mergeBoreholes col raw = Inr ?out" by (simp add: mergeBoreholes_def m)
  have mem: "\<forall>b \<in> set ?out. \<exists>f fs. arrivalsOf (fragKey b) raw = f # fs \<and> b = foldl mergeInto f fs"
    using mergeBoreholes_member [OF r] by blast
  have d: "distinct (map fst m)" using forEachMerge_distinct [OF m] by simp
  have "fragKey b = k" if "(k, b) \<in> set m" for k b
  proof -
    from that d have "map_of m k = Some b" by simp
    with forEachMerge_empty_lookup [OF m, of k] obtain f fs
      where a: "arrivalsOf k raw = f # fs" and b: "b = foldl mergeInto f fs"
      by (auto split: list.splits if_splits)
    from a have "f \<in> set (arrivalsOf k raw)" by simp
    then have "fragKey f = k" by (simp add: arrivalsOf_def)
    with b show ?thesis by (simp add: fragKey_foldl_mergeInto)
  qed
  then have "fragKey ` snd ` set m = fst ` set m" by force
  moreover have "fst ` set m = fragKey ` set raw - {[]}"
    using forEachMerge_dom [OF m] by simp
  ultimately have "fragKey ` set ?out = fragKey ` set raw - {[]}"
    by (simp add: set_Object_values)
  with r mem show ?thesis by blast
qed

lemma mergeBoreholes_all_unnamed:
  assumes "\<forall>f \<in> set raw. fragKey f = []"
  shows "mergeBoreholes col raw = Inr []"
proof -
  have "forEachMerge raw m = Inr m" for m
    using assms by (induction raw) (simp_all add: mergeItem_skip)
  then show ?thesis by (simp add: mergeBoreholes_def Object_values_def)
qed


end
